theory Spec2Isabelle
  imports
    Complex_Main
    "HOL-Library.Word"
    "HOL-Library.Monad_Syntax"
    "HOL-Library.Signed_Division"
    "HOL-Library.Code_Target_Numeral"
begin

section \<open>The image object of \<^verbatim>\<open>jpeg.cpp\<close>\<close>

text \<open>
  \<^verbatim>\<open>marengo::jpeg::Image\<close> holds the scanlines as
  \<^verbatim>\<open>std::vector<std::vector<uint8_t>> m_bitmapData\<close> together with
  \<^verbatim>\<open>m_width\<close>, \<^verbatim>\<open>m_height\<close>, \<^verbatim>\<open>m_pixelSize\<close> (all \<^verbatim>\<open>size_t\<close>) and
  \<^verbatim>\<open>m_colourSpace\<close>. The libjpeg error manager is not touched by any transform and
  is left out. A \<^verbatim>\<open>uint8_t\<close> is an \<open>8 word\<close>. The sizes are lengths of vectors that
  exist in memory, so they are natural numbers below \<open>2 ^ 64\<close> and are kept as \<open>nat\<close>;
  where the source subtracts from one of them the text next to the definition says why
  the difference cannot wrap.
\<close>

type_synonym byte = "8 word"
type_synonym bitmap = "byte list list"

record Image =
  m_bitmapData :: bitmap
  m_width :: nat
  m_height :: nat
  m_pixelSize :: nat
  m_colourSpace :: int

text \<open>The only exception the transforms throw is \<^verbatim>\<open>std::out_of_range\<close>, with a message.\<close>

datatype exn = out_of_range string

text \<open>
  A \<^verbatim>\<open>const\<close> member function returns a value, throws, or runs into undefined
  behaviour (an access outside a vector through \<^verbatim>\<open>operator[]\<close>, an integer division
  by zero). A mutating member function returns with a new object state, throws with the
  state the object has at the \<^verbatim>\<open>throw\<close>, or runs into undefined behaviour.
\<close>

datatype 'a result = Value 'a | Throw exn | Undefined

datatype outcome = Returned Image | Thrown exn Image | Undefined_behaviour

subsection \<open>Vectors of vectors\<close>

text \<open>
  \<^verbatim>\<open>v[row][col]\<close> outside the vector is undefined behaviour in C++; here it is \<open>None\<close>,
  and \<open>None\<close> propagates to the end of the function.
\<close>

definition at2 :: "'a list list \<Rightarrow> nat \<Rightarrow> nat \<Rightarrow> 'a option" where
  "at2 v row col =
     (if row < length v \<and> col < length (v ! row) then Some (v ! row ! col) else None)"

definition put2 :: "'a list list \<Rightarrow> nat \<Rightarrow> nat \<Rightarrow> 'a \<Rightarrow> 'a list list option" where
  "put2 v row col x =
     (if row < length v \<and> col < length (v ! row)
      then Some (v[row := (v ! row)[col := x]]) else None)"

text \<open>
  \<^verbatim>\<open>v[row][col] += d\<close> with \<open>d\<close> an \<^verbatim>\<open>int\<close>: the byte is promoted to \<^verbatim>\<open>int\<close>, the sum
  is converted back to \<^verbatim>\<open>uint8_t\<close>, that is, taken modulo 256.
\<close>

definition add2 :: "bitmap \<Rightarrow> nat \<Rightarrow> nat \<Rightarrow> int \<Rightarrow> bitmap option" where
  "add2 v row col d =
     do { x \<leftarrow> at2 v row col; put2 v row col (word_of_int (uint x + d)) }"

subsection \<open>Loops\<close>

text \<open>
  A \<^verbatim>\<open>for\<close> loop whose counter runs through a fixed list of values and whose body
  updates the state: the body may fail, and then the loop fails.
\<close>

fun for_each :: "nat list \<Rightarrow> (nat \<Rightarrow> 's \<Rightarrow> 's option) \<Rightarrow> 's \<Rightarrow> 's option" where
  "for_each [] body s = Some s"
| "for_each (i # is) body s = Option.bind (body i s) (for_each is body)"

text \<open>A loop whose body does nothing but \<^verbatim>\<open>push_back\<close> one value onto a fresh vector.\<close>

fun collect :: "nat list \<Rightarrow> (nat \<Rightarrow> 'a option) \<Rightarrow> 'a list option" where
  "collect [] f = Some []"
| "collect (i # is) f = do { x \<leftarrow> f i; xs \<leftarrow> collect is f; Some (x # xs) }"

text \<open>The counter values of \<^verbatim>\<open>for (col = 0; col < n; col += 3)\<close>.\<close>

definition every3 :: "nat \<Rightarrow> nat list" where
  "every3 n = filter (\<lambda>col. col mod 3 = 0) [0..<n]"

section \<open>The monochrome ditherer \<^verbatim>\<open>Image::fsd\<close>\<close>

text \<open>First loop nest: every group of three samples is replaced by its truncated mean.\<close>

definition to_grayscale :: "Image \<Rightarrow> bitmap option" where
  "to_grayscale img =
     collect [0..<m_height img] (\<lambda>row.
       collect (every3 (m_width img * m_pixelSize img)) (\<lambda>col. do {
         a \<leftarrow> at2 (m_bitmapData img) row col;
         b \<leftarrow> at2 (m_bitmapData img) row (col + 1);
         c \<leftarrow> at2 (m_bitmapData img) row (col + 2);
         Some (word_of_nat ((unat a + unat b + unat c) div 3)) }))"

text \<open>
  Second loop nest. \<^verbatim>\<open>newPixel\<close>, \<^verbatim>\<open>oldPixel\<close> and \<^verbatim>\<open>error\<close> are declared
  \<^verbatim>\<open>uint8_t\<close>: the difference \<^verbatim>\<open>oldPixel - newPixel\<close> is stored modulo 256. In
  \<^verbatim>\<open>error*7/16\<close> the byte is promoted to \<^verbatim>\<open>int\<close>, so the product and the quotient
  are those of a number between 0 and 255.
\<close>

definition fsd_newPixel :: "byte \<Rightarrow> byte" where
  "fsd_newPixel oldPixel = (if oldPixel \<le> 128 then 0xFF else 0x00)"

definition fsd_error :: "byte \<Rightarrow> byte" where
  "fsd_error oldPixel = oldPixel - fsd_newPixel oldPixel"

definition fsd_term :: "byte \<Rightarrow> int \<Rightarrow> int" where
  "fsd_term error k = (uint error * k) sdiv 16"

text \<open>
  One execution of the body of the inner loop. The test \<^verbatim>\<open>col == m_width - 1\<close> is only
  reached with \<^verbatim>\<open>col < m_width\<close>, and \<^verbatim>\<open>row == m_height - 1\<close> with
  \<^verbatim>\<open>row < m_height\<close>, so neither subtraction wraps where it is evaluated.
\<close>

definition fsd_visit :: "nat \<Rightarrow> nat \<Rightarrow> nat \<Rightarrow> nat \<Rightarrow> bitmap \<Rightarrow> bitmap option" where
  "fsd_visit w h row col v =
     (if col = 0 \<or> col = w - 1 \<or> row = h - 1 then put2 v row col 0xFF
      else do {
        oldPixel \<leftarrow> at2 v row col;
        v1 \<leftarrow> add2 v row (col + 1) (fsd_term (fsd_error oldPixel) 7);
        v2 \<leftarrow> add2 v1 (row + 1) (col + 1) (fsd_term (fsd_error oldPixel) 1);
        v3 \<leftarrow> add2 v2 (row + 1) col (fsd_term (fsd_error oldPixel) 5);
        v4 \<leftarrow> add2 v3 (row + 1) (col - 1) (fsd_term (fsd_error oldPixel) 3);
        put2 v4 row col (fsd_newPixel oldPixel) })"

definition fsd_dither :: "nat \<Rightarrow> nat \<Rightarrow> bitmap \<Rightarrow> bitmap option" where
  "fsd_dither w h v = for_each [0..<h] (\<lambda>row. for_each [0..<w] (fsd_visit w h row)) v"

text \<open>Third loop nest: every sample is pushed three times.\<close>

definition to_3_channels :: "nat \<Rightarrow> nat \<Rightarrow> bitmap \<Rightarrow> bitmap option" where
  "to_3_channels w h v =
     collect [0..<h] (\<lambda>row.
       map_option concat (collect [0..<w] (\<lambda>col. do {
         a \<leftarrow> at2 v row col;
         b \<leftarrow> at2 v row col;
         c \<leftarrow> at2 v row col;
         Some [a, b, c] })))"

text \<open>
  The end of every transform: the new rows replace the old ones, the height is their
  number and the width is read off row 0, which must exist.
\<close>

definition replace_bitmap :: "Image \<Rightarrow> bitmap \<Rightarrow> outcome" where
  "replace_bitmap img v =
     (case v of
        [] \<Rightarrow> Undefined_behaviour
      | row0 # _ \<Rightarrow>
          if m_pixelSize img = 0 then Undefined_behaviour
          else Returned (img\<lparr>m_bitmapData := v, m_height := length v,
                  m_width := length row0 div m_pixelSize img\<rparr>))"

definition fsd :: "Image \<Rightarrow> outcome" where
  "fsd img =
     (case do {
             g \<leftarrow> to_grayscale img;
             d \<leftarrow> fsd_dither (m_width img) (m_height img) g;
             to_3_channels (m_width img) (m_height img) d }
      of None \<Rightarrow> Undefined_behaviour
       | Some vecNewBitmapD \<Rightarrow> replace_bitmap (img\<lparr>m_pixelSize := 3\<rparr>) vecNewBitmapD)"

text \<open>
  The contents of \<^verbatim>\<open>vecNewBitmap\<close> at the moment the two loops arrive at
  \<open>(row, col)\<close>: the rows above are done, and so are the columns to the left in this row.
\<close>

definition fsd_reached :: "nat \<Rightarrow> nat \<Rightarrow> nat \<Rightarrow> nat \<Rightarrow> bitmap \<Rightarrow> bitmap option" where
  "fsd_reached w h row col v =
     Option.bind (for_each [0..<row] (\<lambda>r. for_each [0..<w] (fsd_visit w h r)) v)
       (for_each [0..<col] (fsd_visit w h row))"

section \<open>The palette ditherer \<^verbatim>\<open>Image::fsdColor\<close>\<close>

definition palet :: "byte list list" where
  "palet = [[0x38, 0x48, 0x8d],
            [0x54, 0x7a, 0x49],
            [0x9f, 0x4b, 0x4e],
            [0x24, 0x29, 0x33],
            [0xc9, 0xd1, 0x68],
            [0xb5, 0x5d, 0x4c],
            [0xd3, 0xdd, 0xe4]]"

text \<open>
  The distance of the sample \<open>(r, g, b)\<close> to palette entry \<open>idxPalet\<close>. The deltas and
  \<^verbatim>\<open>rHat\<close> are \<^verbatim>\<open>int16_t\<close> holding numbers between \<open>-255\<close> and \<open>255\<close>; the
  radicand is an \<^verbatim>\<open>int\<close> of at most \<open>9 * 255\<^sup>2\<close>. The source takes the square root in
  double precision and stores it in a \<^verbatim>\<open>float\<close>; the distances are only compared
  with each other. Two radicands in this range that differ have square roots more than
  \<open>1 / 1531\<close> apart, which is more than the spacing \<open>2\<^sup>-\<^sup>1\<^sup>4\<close> of single-precision numbers
  below 1024, so rounding keeps every comparison of the exact roots; the model compares
  the exact roots.
\<close>

definition auxDistance :: "byte \<Rightarrow> byte \<Rightarrow> byte \<Rightarrow> nat \<Rightarrow> real" where
  "auxDistance r g b idxPalet =
     (let deltaR = uint r - uint (palet ! idxPalet ! 0);
          deltaG = uint g - uint (palet ! idxPalet ! 1);
          deltaB = uint b - uint (palet ! idxPalet ! 2);
          rHat = (uint r + uint (palet ! idxPalet ! 0)) div 2
      in if rHat < 128
         then sqrt (of_int ((2 * deltaR * deltaR) + (4 * deltaG * deltaG) + (3 * deltaB * deltaB)))
         else sqrt (of_int ((3 * deltaR * deltaR) + (4 * deltaG * deltaG) + (2 * deltaB * deltaB))))"

text \<open>
  One round of the search loop on the pair \<^verbatim>\<open>(shortDistance, idColor)\<close>. Both variables
  are uninitialised before the loop and assigned in round 0 before they are read, so the
  pair the loop starts from does not matter.
\<close>

definition search_round :: "byte \<Rightarrow> byte \<Rightarrow> byte \<Rightarrow> nat \<Rightarrow> real \<times> nat \<Rightarrow> real \<times> nat" where
  "search_round r g b idxPalet st =
     (if idxPalet = 0 then (auxDistance r g b idxPalet, idxPalet)
      else if fst st > auxDistance r g b idxPalet then (auxDistance r g b idxPalet, idxPalet)
      else st)"

definition idColor :: "byte \<Rightarrow> byte \<Rightarrow> byte \<Rightarrow> nat" where
  "idColor r g b = snd (fold (search_round r g b) [0..<7] (0, 0))"

text \<open>
  The same search on the radicands instead of their square roots. It selects the same
  entry (\<open>idColor_code\<close> below) and is what evaluation uses, since a square root of
  a real number cannot be computed.
\<close>

definition radicand :: "byte \<Rightarrow> byte \<Rightarrow> byte \<Rightarrow> nat \<Rightarrow> int" where
  "radicand r g b idxPalet =
     (let deltaR = uint r - uint (palet ! idxPalet ! 0);
          deltaG = uint g - uint (palet ! idxPalet ! 1);
          deltaB = uint b - uint (palet ! idxPalet ! 2);
          rHat = (uint r + uint (palet ! idxPalet ! 0)) div 2
      in if rHat < 128
         then (2 * deltaR * deltaR) + (4 * deltaG * deltaG) + (3 * deltaB * deltaB)
         else (3 * deltaR * deltaR) + (4 * deltaG * deltaG) + (2 * deltaB * deltaB))"

definition search_round_radicand :: "byte \<Rightarrow> byte \<Rightarrow> byte \<Rightarrow> nat \<Rightarrow> int \<times> nat \<Rightarrow> int \<times> nat" where
  "search_round_radicand r g b idxPalet st =
     (if idxPalet = 0 then (radicand r g b idxPalet, idxPalet)
      else if fst st > radicand r g b idxPalet then (radicand r g b idxPalet, idxPalet)
      else st)"

text \<open>
  The errors are \<^verbatim>\<open>int16_t\<close>: \<^verbatim>\<open>oldPixelR - newPixelR\<close> is a number between \<open>-255\<close>
  and \<open>255\<close> and is kept with its sign. \<^verbatim>\<open>errorR*7/16\<close> is \<^verbatim>\<open>int\<close> arithmetic, and
  C++ division truncates towards zero.
\<close>

definition fsdColor_error :: "byte \<Rightarrow> nat \<Rightarrow> nat \<Rightarrow> int" where
  "fsdColor_error oldPixel idc channel = uint oldPixel - uint (palet ! idc ! channel)"

definition fsdColor_term :: "int \<Rightarrow> int \<Rightarrow> int" where
  "fsdColor_term error k = (error * k) sdiv 16"

text \<open>
  One execution of the body of the inner loop; \<open>col\<close> is the index of the first of
  three samples. \<open>wp\<close> is \<^verbatim>\<open>m_width * m_pixelSize\<close> and \<open>p\<close> is \<^verbatim>\<open>m_pixelSize\<close>; the
  body runs with \<open>col < wp\<close>, and in the second branch \<open>col\<close> is a positive multiple of 3,
  so the subtractions do not wrap where their value is used.
\<close>

definition fsdColor_visit :: "nat \<Rightarrow> nat \<Rightarrow> nat \<Rightarrow> nat \<Rightarrow> nat \<Rightarrow> bitmap \<Rightarrow> bitmap option" where
  "fsdColor_visit wp p h row col v =
     (if col = 0 \<or> col \<ge> wp - p \<or> row = h - 1 then do {
        v1 \<leftarrow> put2 v row col (palet ! 0 ! 0);
        v2 \<leftarrow> put2 v1 row (col + 1) (palet ! 0 ! 1);
        put2 v2 row (col + 2) (palet ! 0 ! 2) }
      else do {
        r \<leftarrow> at2 v row col;
        g \<leftarrow> at2 v row (col + 1);
        b \<leftarrow> at2 v row (col + 2);
        let idc = idColor r g b;
        let errorR = fsdColor_error r idc 0;
        let errorG = fsdColor_error g idc 1;
        let errorB = fsdColor_error b idc 2;
        a1 \<leftarrow> add2 v row (col + 0 + 3) (fsdColor_term errorR 7);
        a2 \<leftarrow> add2 a1 row (col + 1 + 3) (fsdColor_term errorG 7);
        a3 \<leftarrow> add2 a2 row (col + 2 + 3) (fsdColor_term errorB 7);
        b1 \<leftarrow> add2 a3 (row + 1) (col + 0 + 3) (fsdColor_term errorR 1);
        b2 \<leftarrow> add2 b1 (row + 1) (col + 1 + 3) (fsdColor_term errorG 1);
        b3 \<leftarrow> add2 b2 (row + 1) (col + 2 + 3) (fsdColor_term errorB 1);
        c1 \<leftarrow> add2 b3 (row + 1) (col + 0) (fsdColor_term errorR 5);
        c2 \<leftarrow> add2 c1 (row + 1) (col + 1) (fsdColor_term errorG 5);
        c3 \<leftarrow> add2 c2 (row + 1) (col + 2) (fsdColor_term errorB 5);
        d1 \<leftarrow> add2 c3 (row + 1) (col - 0 - 3) (fsdColor_term errorR 3);
        d2 \<leftarrow> add2 d1 (row + 1) (col + 1 - 3) (fsdColor_term errorG 3);
        d3 \<leftarrow> add2 d2 (row + 1) (col + 2 - 3) (fsdColor_term errorB 3);
        e1 \<leftarrow> put2 d3 row col (palet ! idc ! 0);
        e2 \<leftarrow> put2 e1 row (col + 1) (palet ! idc ! 1);
        put2 e2 row (col + 2) (palet ! idc ! 2) })"

definition fsdColor_dither :: "nat \<Rightarrow> nat \<Rightarrow> nat \<Rightarrow> bitmap \<Rightarrow> bitmap option" where
  "fsdColor_dither wp p h v =
     for_each [0..<h] (\<lambda>row. for_each (every3 wp) (fsdColor_visit wp p h row)) v"

definition fsdColor :: "Image \<Rightarrow> outcome" where
  "fsdColor img =
     (case fsdColor_dither (m_width img * m_pixelSize img) (m_pixelSize img) (m_height img)
             (m_bitmapData img)
      of None \<Rightarrow> Undefined_behaviour
       | Some v \<Rightarrow> replace_bitmap (img\<lparr>m_pixelSize := 3\<rparr>) v)"

text \<open>
  The contents of \<^verbatim>\<open>m_bitmapData\<close> at the moment the two loops arrive at the
  pixel whose first sample has index \<open>col\<close> in row \<open>row\<close>.
\<close>

definition fsdColor_reached :: "nat \<Rightarrow> nat \<Rightarrow> nat \<Rightarrow> nat \<Rightarrow> nat \<Rightarrow> bitmap \<Rightarrow> bitmap option" where
  "fsdColor_reached wp p h row col v =
     Option.bind (for_each [0..<row] (\<lambda>r. for_each (every3 wp) (fsdColor_visit wp p h r)) v)
       (for_each (every3 col) (fsdColor_visit wp p h row))"

section \<open>Pixel access: \<^verbatim>\<open>Image::getPixel\<close> and \<^verbatim>\<open>Image::getAverage\<close>\<close>

definition getPixel :: "Image \<Rightarrow> nat \<Rightarrow> nat \<Rightarrow> byte list result" where
  "getPixel img x y =
     (if y \<ge> length (m_bitmapData img) then Throw (out_of_range ''Y value too large'')
      else if m_pixelSize img = 0 then Undefined
      else if x \<ge> length (m_bitmapData img ! 0) div m_pixelSize img
        then Throw (out_of_range ''X value too large'')
      else case collect [0..<m_pixelSize img]
                  (\<lambda>n. at2 (m_bitmapData img) y (x * m_pixelSize img + n))
           of None \<Rightarrow> Undefined | Some vec \<Rightarrow> Value vec)"

text \<open>
  The arguments of \<^verbatim>\<open>getAverage\<close> are \<^verbatim>\<open>size_t\<close> values chosen by the caller, so
  \<^verbatim>\<open>x + boxSize\<close> can wrap; a \<^verbatim>\<open>size_t\<close> is taken to have 64 bits.
\<close>

definition size_t :: "nat \<Rightarrow> nat" where
  "size_t n = n mod 2 ^ 64"

text \<open>A loop whose body may also throw: the first failure ends the loop.\<close>

fun for_each_result :: "nat list \<Rightarrow> (nat \<Rightarrow> 's \<Rightarrow> 's result) \<Rightarrow> 's \<Rightarrow> 's result" where
  "for_each_result [] body s = Value s"
| "for_each_result (i # is) body s =
     (case body i s of
        Value s' \<Rightarrow> for_each_result is body s'
      | Throw e \<Rightarrow> Throw e
      | Undefined \<Rightarrow> Undefined)"

text \<open>The body of the inner loop on the running totals \<open>(r, g, b)\<close>.\<close>

definition add_pixel :: "Image \<Rightarrow> nat \<Rightarrow> nat \<Rightarrow> nat \<times> nat \<times> nat \<Rightarrow> (nat \<times> nat \<times> nat) result" where
  "add_pixel img row col t =
     (case t of (r, g, b) \<Rightarrow>
        (case getPixel img col row of
           Throw e \<Rightarrow> Throw e
         | Undefined \<Rightarrow> Undefined
         | Value vec \<Rightarrow>
             (case vec of
                [] \<Rightarrow> Undefined
              | v0 # _ \<Rightarrow>
                  if length vec = 3
                  then Value (size_t (r + unat v0), size_t (g + unat (vec ! 1)),
                              size_t (b + unat (vec ! 2)))
                  else Value (size_t (r + unat v0), g, b))))"

definition getAverage :: "Image \<Rightarrow> nat \<Rightarrow> nat \<Rightarrow> nat \<Rightarrow> byte list result" where
  "getAverage img x y boxSize =
     (if boxSize > m_width img
        then Throw (out_of_range ''Box size is greater than image width'')
      else if boxSize > m_height img
        then Throw (out_of_range ''Box size is greater than image height'')
      else
        let x1 = (if size_t (x + boxSize) \<ge> m_width img then m_width img - boxSize else x);
            y1 = (if size_t (y + boxSize) \<ge> m_height img then m_height img - boxSize else y)
        in case for_each_result [y1..<size_t (y1 + boxSize)]
                  (\<lambda>row. for_each_result [x1..<size_t (x1 + boxSize)] (add_pixel img row))
                  (0, 0, 0)
           of Throw e \<Rightarrow> Throw e
            | Undefined \<Rightarrow> Undefined
            | Value (r, g, b) \<Rightarrow>
                if size_t (boxSize * boxSize) = 0 then Undefined
                else if m_pixelSize img = 3
                  then Value [word_of_nat (r div size_t (boxSize * boxSize)),
                              word_of_nat (g div size_t (boxSize * boxSize)),
                              word_of_nat (b div size_t (boxSize * boxSize))]
                  else Value [word_of_nat (r div size_t (boxSize * boxSize))])"

section \<open>The box-filter downsampler \<^verbatim>\<open>Image::shrink\<close>\<close>

subsection \<open>Single-precision numbers\<close>

text \<open>
  \<^verbatim>\<open>scaleFactor\<close> is a \<^verbatim>\<open>float\<close>. A single-precision number is modelled by the
  rational it denotes, and every operation by the exact operation followed by rounding
  to 24 significant bits, to nearest with ties to even (IEEE 754 binary32 in its default
  mode). All numbers that occur are positive quotients and products of vector sizes, far
  from the overflow and underflow thresholds.
\<close>

definition pow2 :: "int \<Rightarrow> rat" where
  "pow2 e = (if 0 \<le> e then 2 ^ nat e else 1 / 2 ^ nat (- e))"

text \<open>The number of binary digits of a positive integer.\<close>

function bit_length :: "int \<Rightarrow> int" where
  "bit_length n = (if n \<le> 0 then 0 else 1 + bit_length (n div 2))"
  by pat_completeness auto
termination
  by (relation "measure nat") auto

text \<open>
  For \<open>q > 0\<close>: the exponent \<open>e\<close> with \<open>2\<^sup>e \<le> q < 2\<^sup>e\<^sup>+\<^sup>1\<close>. The difference of the
  digit counts of numerator and denominator is \<open>e\<close> or \<open>e + 1\<close>.
\<close>

definition floor_log2 :: "rat \<Rightarrow> int" where
  "floor_log2 q =
     (case quotient_of q of (a, b) \<Rightarrow>
        let d = bit_length a - bit_length b
        in if pow2 d \<le> q then d else d - 1)"

definition round_even :: "rat \<Rightarrow> int" where
  "round_even m =
     (let f = \<lfloor>m\<rfloor>; t = m - of_int f
      in if t < 1 / 2 then f else if 1 / 2 < t then f + 1 else if even f then f else f + 1)"

definition to_float :: "rat \<Rightarrow> rat" where
  "to_float q =
     (if q \<le> 0 then 0
      else let e = floor_log2 q in of_int (round_even (q / pow2 (e - 23))) * pow2 (e - 23))"

text \<open>
  \<^verbatim>\<open>static_cast<size_t>(scaleFactor * n)\<close>: \<open>n\<close> is converted to \<^verbatim>\<open>float\<close>, the product
  is rounded, and the conversion to an integer drops the fraction.
\<close>

definition scaled :: "rat \<Rightarrow> nat \<Rightarrow> nat" where
  "scaled scaleFactor n = nat \<lfloor>to_float (scaleFactor * to_float (of_nat n))\<rfloor>"

definition shrink_scaleFactor :: "nat \<Rightarrow> Image \<Rightarrow> rat" where
  "shrink_scaleFactor newWidth img =
     to_float (to_float (of_nat newWidth) / to_float (of_nat (m_width img)))"

text \<open>\<^verbatim>\<open>newHeight\<close> is computed and used only to reserve capacity.\<close>

definition shrink_newHeight :: "nat \<Rightarrow> Image \<Rightarrow> nat" where
  "shrink_newHeight newWidth img = scaled (shrink_scaleFactor newWidth img) (m_height img)"

subsection \<open>The loops\<close>

record shrink_state =
  runningTotals :: "nat list"
  runningCounts :: "nat list"
  oldRow :: nat
  vecNewBitmap :: bitmap

text \<open>
  The running totals are \<^verbatim>\<open>size_t\<close> sums of bytes that are all in memory, so they stay
  below \<open>2 ^ 64\<close>.
\<close>

definition shrink_accumulate :: "rat \<Rightarrow> bitmap \<Rightarrow> nat \<Rightarrow> nat \<Rightarrow> shrink_state \<Rightarrow> shrink_state option" where
  "shrink_accumulate scaleFactor bm row col st =
     (let idx = scaled scaleFactor col
      in if idx < length (runningTotals st) \<and> idx < length (runningCounts st)
         then do {
           x \<leftarrow> at2 bm row col;
           Some (st\<lparr>runningTotals := (runningTotals st)[idx := runningTotals st ! idx + unat x],
                    runningCounts := (runningCounts st)[idx := runningCounts st ! idx + 1]\<rparr>) }
         else None)"

text \<open>
  The flush: every total is divided by its count (a count of zero is a division by
  zero), the quotient is pushed as a byte, and both are reset.
\<close>

definition flush_entry :: "nat \<Rightarrow> nat list \<times> nat list \<times> byte list \<Rightarrow> (nat list \<times> nat list \<times> byte list) option" where
  "flush_entry i t =
     (case t of (totals, counts, newLine) \<Rightarrow>
        if i < length totals \<and> i < length counts \<and> counts ! i \<noteq> 0
        then Some (totals[i := 0], counts[i := 0],
                   newLine @ [word_of_nat (totals ! i div counts ! i)])
        else None)"

definition shrink_flush :: "nat \<Rightarrow> shrink_state \<Rightarrow> shrink_state option" where
  "shrink_flush n st =
     do {
       (totals, counts, newLine) \<leftarrow>
          for_each [0..<n] flush_entry (runningTotals st, runningCounts st, []);
       Some (st\<lparr>runningTotals := totals, runningCounts := counts,
                vecNewBitmap := vecNewBitmap st @ [newLine]\<rparr>) }"

definition shrink_row :: "rat \<Rightarrow> nat \<Rightarrow> Image \<Rightarrow> nat \<Rightarrow> shrink_state \<Rightarrow> shrink_state option" where
  "shrink_row scaleFactor newWidth img row st =
     do {
       st1 \<leftarrow> for_each [0..<m_width img * m_pixelSize img]
                 (shrink_accumulate scaleFactor (m_bitmapData img) row) st;
       if scaled scaleFactor row > oldRow st1
       then shrink_flush (newWidth * m_pixelSize img) (st1\<lparr>oldRow := scaled scaleFactor row\<rparr>)
       else Some st1 }"

definition shrink :: "nat \<Rightarrow> Image \<Rightarrow> outcome" where
  "shrink newWidth img =
     (if newWidth \<ge> m_width img then Returned img
      else if newWidth = 0 then Thrown (out_of_range ''New width cannot be zero'') img
      else
        case for_each [0..<m_height img]
               (shrink_row (shrink_scaleFactor newWidth img) newWidth img)
               \<lparr>runningTotals = replicate (newWidth * m_pixelSize img) 0,
                runningCounts = replicate (newWidth * m_pixelSize img) 0,
                oldRow = 0, vecNewBitmap = []\<rparr>
        of None \<Rightarrow> Undefined_behaviour
         | Some st \<Rightarrow> replace_bitmap img (vecNewBitmap st))"

section \<open>Consistent images and the vocabulary of the proofs\<close>

text \<open>
  The invariant of the data model: \<^verbatim>\<open>m_height\<close> rows, each of
  \<^verbatim>\<open>m_width * m_pixelSize\<close> samples.
\<close>

definition shape :: "nat \<Rightarrow> nat \<Rightarrow> 'a list list \<Rightarrow> bool" where
  "shape w h v \<longleftrightarrow> length v = h \<and> (\<forall>row \<in> set v. length row = w)"

definition consistent :: "Image \<Rightarrow> bool" where
  "consistent img \<longleftrightarrow>
     shape (m_width img * m_pixelSize img) (m_height img) (m_bitmapData img)"

text \<open>What \<open>put2\<close> returns inside the vector.\<close>

definition upd2 :: "'a list list \<Rightarrow> nat \<Rightarrow> nat \<Rightarrow> 'a \<Rightarrow> 'a list list" where
  "upd2 v row col x = v[row := (v ! row)[col := x]]"

text \<open>The sample that \<open>to_grayscale\<close> computes for pixel \<open>k\<close> of a row.\<close>

definition gray_mean :: "bitmap \<Rightarrow> nat \<Rightarrow> nat \<Rightarrow> byte" where
  "gray_mean v row k =
     word_of_nat ((unat (v ! row ! (k * 3)) + unat (v ! row ! (k * 3 + 1))
                   + unat (v ! row ! (k * 3 + 2))) div 3)"

section \<open>Example images\<close>



text \<open>A 3-channel image of 4 by 3 pixels: light grey with a black second column.\<close>

definition stripe_4x3 :: Image where
  "stripe_4x3 = \<lparr>m_bitmapData = [[200, 200, 200, 0, 0, 0, 200, 200, 200, 200, 200, 200],
                                   [200, 200, 200, 0, 0, 0, 200, 200, 200, 200, 200, 200],
                                   [200, 200, 200, 0, 0, 0, 200, 200, 200, 200, 200, 200]],
                  m_width = 4, m_height = 3, m_pixelSize = 3, m_colourSpace = 2\<rparr>"

text \<open>The 1-channel image of 4 by 4 pixels with the row \<open>0, 0, 255, 255\<close>.\<close>

definition gray_4x4 :: Image where
  "gray_4x4 = \<lparr>m_bitmapData = [[0, 0, 255, 255], [0, 0, 255, 255],
                                 [0, 0, 255, 255], [0, 0, 255, 255]],
                m_width = 4, m_height = 4, m_pixelSize = 1, m_colourSpace = 1\<rparr>"

text \<open>A 3-channel image of 2 by 3 pixels, every pixel \<open>(10, 20, 60)\<close>.\<close>

definition uniform_2x3 :: Image where
  "uniform_2x3 = \<lparr>m_bitmapData = [[10, 20, 60, 10, 20, 60], [10, 20, 60, 10, 20, 60],
                                    [10, 20, 60, 10, 20, 60]],
                   m_width = 2, m_height = 3, m_pixelSize = 3, m_colourSpace = 2\<rparr>"

text \<open>A 3-channel image of 3 by 2 pixels, every pixel the palette entry \<open>(0x54, 0x7a, 0x49)\<close>.\<close>

definition green_3x2 :: Image where
  "green_3x2 = \<lparr>m_bitmapData = [[0x54, 0x7a, 0x49, 0x54, 0x7a, 0x49, 0x54, 0x7a, 0x49],
                                  [0x54, 0x7a, 0x49, 0x54, 0x7a, 0x49, 0x54, 0x7a, 0x49]],
                 m_width = 3, m_height = 2, m_pixelSize = 3, m_colourSpace = 2\<rparr>"

section \<open>Properties of the loops\<close>

lemma for_each_append:
  "for_each (xs @ ys) body s = Option.bind (for_each xs body s) (for_each ys body)"
  by (induction xs arbitrary: s) (auto split: Option.bind_split)

lemma for_each_inv:
  assumes "I s"
    and "\<And>i t. i \<in> set xs \<Longrightarrow> I t \<Longrightarrow> \<exists>t'. body i t = Some t' \<and> I t'"
  shows "\<exists>s'. for_each xs body s = Some s' \<and> I s'"
  using assms
proof (induction xs arbitrary: s)
  case Nil
  then show ?case by simp
next
  case (Cons i xs)
  from Cons.prems obtain t where t: "body i s = Some t" "I t"
    by (meson list.set_intros(1))
  have "\<exists>s'. for_each xs body t = Some s' \<and> I s'"
    by (rule Cons.IH [OF t(2)]) (simp add: Cons.prems(2))
  with t show ?case by simp
qed

lemma collect_map:
  assumes "\<And>i. i \<in> set xs \<Longrightarrow> f i = Some (g i)"
  shows "collect xs f = Some (map g xs)"
  using assms by (induction xs) auto

lemma scan_visit:
  fixes visit :: "nat \<Rightarrow> nat \<Rightarrow> 's \<Rightarrow> 's option"
  assumes I0: "I s0"
    and r: "r < h"
    and cs: "cs = as @ c # bs"
    and tot: "\<And>r' c' s. r' < h \<Longrightarrow> c' \<in> set cs \<Longrightarrow> I s \<Longrightarrow> \<exists>s'. visit r' c' s = Some s' \<and> I s'"
    and frame: "\<And>r' c' s s'. r' < h \<Longrightarrow> (r < r' \<and> c' \<in> set cs) \<or> (r' = r \<and> c' \<in> set bs) \<Longrightarrow>
                 I s \<Longrightarrow> visit r' c' s = Some s' \<Longrightarrow> obs s' = obs s"
  shows "\<exists>s s' out.
           Option.bind (for_each [0..<r] (\<lambda>row. for_each cs (visit row)) s0) (for_each as (visit r)) = Some s
         \<and> I s \<and> visit r c s = Some s' \<and> I s'
         \<and> for_each [0..<h] (\<lambda>row. for_each cs (visit row)) s0 = Some out
         \<and> I out \<and> obs out = obs s'"
proof -
  let ?line = "\<lambda>row. for_each cs (visit row)"
  have line: "\<exists>t'. ?line r' t = Some t' \<and> I t'" if "r' < h" "I t" for r' t
    by (rule for_each_inv [where I = I]) (simp_all add: tot that)
  obtain s1 where s1: "for_each [0..<r] ?line s0 = Some s1" "I s1"
    using for_each_inv [where I = I and s = s0 and xs = "[0..<r]" and body = ?line] I0 line r by fastforce
  obtain s2 where s2: "for_each as (visit r) s1 = Some s2" "I s2"
    using for_each_inv [where I = I and s = s1 and xs = as and body = "visit r"] s1(2) tot [OF r] cs by fastforce
  obtain s3 where s3: "visit r c s2 = Some s3" "I s3"
    using tot [OF r _ s2(2), of c] cs by auto
  let ?J = "\<lambda>t. I t \<and> obs t = obs s3"
  have "\<exists>t'. for_each bs (visit r) s3 = Some t' \<and> ?J t'"
  proof (rule for_each_inv [where I = ?J])
    show "?J s3" using s3 by simp
  next
    fix i t assume i: "i \<in> set bs" and t: "?J t"
    then obtain t' where t': "visit r i t = Some t'" "I t'"
      using tot [OF r, of i t] cs by auto
    with frame [OF r _ _ t'(1)] i t show "\<exists>t'. visit r i t = Some t' \<and> ?J t'" by auto
  qed
  then obtain s4 where s4: "for_each bs (visit r) s3 = Some s4" "?J s4" by blast
  have "\<exists>t'. for_each [Suc r..<h] ?line s4 = Some t' \<and> ?J t'"
  proof (rule for_each_inv [where I = ?J])
    show "?J s4" using s4 by simp
  next
    fix r' t assume r': "r' \<in> set [Suc r..<h]" and t: "?J t"
    then have r'h: "r' < h" and rr': "r < r'" by auto
    show "\<exists>t'. ?line r' t = Some t' \<and> ?J t'"
    proof (rule for_each_inv [where I = ?J])
      show "?J t" by (rule t)
    next
      fix i u assume i: "i \<in> set cs" and u: "?J u"
      then obtain u' where u': "visit r' i u = Some u'" "I u'"
        using tot [OF r'h, of i u] by auto
      with frame [OF r'h _ _ u'(1)] i u rr' show "\<exists>u'. visit r' i u = Some u' \<and> ?J u'" by auto
    qed
  qed
  then obtain s5 where s5: "for_each [Suc r..<h] ?line s4 = Some s5" "?J s5" by blast
  have rows: "[0..<h] = [0..<r] @ r # [Suc r..<h]"
    using r by (metis le_add2 le_add_same_cancel2 less_imp_add_positive upt_add_eq_append upt_conv_Cons)
  have "?line r s1 = Some s4"
    using s2 s3 s4 by (simp add: cs for_each_append)
  then have "for_each [0..<h] ?line s0 = Some s5"
    using s1 s5 by (simp add: rows for_each_append)
  with s1 s2 s3 s5 show ?thesis by auto
qed

lemma shape_row: "shape w h v \<Longrightarrow> row < h \<Longrightarrow> length (v ! row) = w"
  unfolding shape_def using nth_mem by blast

lemma at2_shape: "shape w h v \<Longrightarrow> row < h \<Longrightarrow> col < w \<Longrightarrow> at2 v row col = Some (v ! row ! col)"
  by (simp add: at2_def shape_def)

lemma put2_shape: "shape w h v \<Longrightarrow> row < h \<Longrightarrow> col < w \<Longrightarrow> put2 v row col x = Some (upd2 v row col x)"
  by (simp add: put2_def upd2_def shape_def)

lemma shape_upd2: "shape w h v \<Longrightarrow> shape w h (upd2 v row col x)"
proof (cases "row < length v")
  case True
  assume s: "shape w h v"
  then have "length ((v ! row)[col := x]) = w"
    using True by (simp add: shape_def)
  with s show ?thesis
    using set_update_subset_insert [of v row "(v ! row)[col := x]"]
    by (auto simp: shape_def upd2_def)
next
  case False
  assume "shape w h v"
  with False show ?thesis by (simp add: upd2_def list_update_beyond)
qed

lemma upd2_same: "shape w h v \<Longrightarrow> row < h \<Longrightarrow> col < w \<Longrightarrow> upd2 v row col x ! row ! col = x"
  by (simp add: upd2_def shape_def)

lemma upd2_other: "row' \<noteq> row \<or> col' \<noteq> col \<Longrightarrow> upd2 v row col x ! row' ! col' = v ! row' ! col'"
  by (cases "row < length v") (auto simp: upd2_def nth_list_update list_update_beyond)

lemma add2_shape:
  "shape w h v \<Longrightarrow> row < h \<Longrightarrow> col < w \<Longrightarrow>
   add2 v row col d = Some (upd2 v row col (word_of_int (uint (v ! row ! col) + d)))"
  by (simp add: add2_def at2_shape put2_shape)

lemma fsd_visit_border:
  assumes "shape w h v" "row < h" "col < w" "col = 0 \<or> col = w - 1 \<or> row = h - 1"
  shows "fsd_visit w h row col v = Some (upd2 v row col 0xFF)"
  using assms by (simp add: fsd_visit_def put2_shape)

lemma fsd_visit_interior:
  assumes "shape w h v" "row + 1 < h" "0 < col" "col + 1 < w"
  shows "\<exists>v'. fsd_visit w h row col v = Some v' \<and> shape w h v'
            \<and> v' ! row ! col = fsd_newPixel (v ! row ! col)
            \<and> (\<forall>row' col'. row' < row \<or> (row' = row \<and> col' < col) \<longrightarrow> v' ! row' ! col' = v ! row' ! col')"
proof -
  let ?e = "fsd_error (v ! row ! col)"
  define v1 where "v1 = upd2 v row (col + 1) (word_of_int (uint (v ! row ! (col + 1)) + fsd_term ?e 7))"
  define v2 where "v2 = upd2 v1 (row + 1) (col + 1) (word_of_int (uint (v1 ! (row + 1) ! (col + 1)) + fsd_term ?e 1))"
  define v3 where "v3 = upd2 v2 (row + 1) col (word_of_int (uint (v2 ! (row + 1) ! col) + fsd_term ?e 5))"
  define v4 where "v4 = upd2 v3 (row + 1) (col - 1) (word_of_int (uint (v3 ! (row + 1) ! (col - 1)) + fsd_term ?e 3))"
  define v5 where "v5 = upd2 v4 row col (fsd_newPixel (v ! row ! col))"
  have s1: "shape w h v1" unfolding v1_def by (rule shape_upd2 [OF assms(1)])
  have s2: "shape w h v2" unfolding v2_def by (rule shape_upd2 [OF s1])
  have s3: "shape w h v3" unfolding v3_def by (rule shape_upd2 [OF s2])
  have s4: "shape w h v4" unfolding v4_def by (rule shape_upd2 [OF s3])
  have s5: "shape w h v5" unfolding v5_def by (rule shape_upd2 [OF s4])
  have rh: "row < h" and cw: "col < w" and c1: "col - 1 < w" using assms by auto
  have nb: "\<not> (col = 0 \<or> col = w - 1 \<or> row = h - 1)" using assms by auto
  have a0: "at2 v row col = Some (v ! row ! col)" by (rule at2_shape [OF assms(1) rh cw])
  have a1: "add2 v row (col + 1) (fsd_term ?e 7) = Some v1"
    unfolding v1_def by (rule add2_shape [OF assms(1) rh assms(4)])
  have a2: "add2 v1 (row + 1) (col + 1) (fsd_term ?e 1) = Some v2"
    unfolding v2_def by (rule add2_shape [OF s1 assms(2) assms(4)])
  have a3: "add2 v2 (row + 1) col (fsd_term ?e 5) = Some v3"
    unfolding v3_def by (rule add2_shape [OF s2 assms(2) cw])
  have a4: "add2 v3 (row + 1) (col - 1) (fsd_term ?e 3) = Some v4"
    unfolding v4_def by (rule add2_shape [OF s3 assms(2) c1])
  have a5: "put2 v4 row col (fsd_newPixel (v ! row ! col)) = Some v5"
    unfolding v5_def by (rule put2_shape [OF s4 rh cw])
  have run: "fsd_visit w h row col v = Some v5"
    using nb a0 a1 a2 a3 a4 a5 by (simp add: fsd_visit_def)
  have own: "v5 ! row ! col = fsd_newPixel (v ! row ! col)"
    unfolding v5_def by (rule upd2_same [OF s4 rh cw])
  have frame: "v5 ! row' ! col' = v ! row' ! col'"
    if "row' < row \<or> (row' = row \<and> col' < col)" for row' col'
  proof -
    from that have d: "row' \<noteq> row \<or> col' \<noteq> col + 1" "row' \<noteq> row + 1 \<or> col' \<noteq> col + 1"
      "row' \<noteq> row + 1 \<or> col' \<noteq> col" "row' \<noteq> row + 1 \<or> col' \<noteq> col - 1"
      "row' \<noteq> row \<or> col' \<noteq> col" by auto
    have "v5 ! row' ! col' = v4 ! row' ! col'" unfolding v5_def by (rule upd2_other [OF d(5)])
    also have "\<dots> = v3 ! row' ! col'" unfolding v4_def by (rule upd2_other [OF d(4)])
    also have "\<dots> = v2 ! row' ! col'" unfolding v3_def by (rule upd2_other [OF d(3)])
    also have "\<dots> = v1 ! row' ! col'" unfolding v2_def by (rule upd2_other [OF d(2)])
    also have "\<dots> = v ! row' ! col'" unfolding v1_def by (rule upd2_other [OF d(1)])
    finally show ?thesis .
  qed
  from run s5 own frame show ?thesis by blast
qed

lemma fsd_visit_total:
  assumes "shape w h v" "row < h" "col < w"
  shows "\<exists>v'. fsd_visit w h row col v = Some v' \<and> shape w h v'
            \<and> v' ! row ! col = (if col = 0 \<or> col = w - 1 \<or> row = h - 1 then 0xFF else fsd_newPixel (v ! row ! col))
            \<and> (\<forall>row' col'. row' < row \<or> (row' = row \<and> col' < col) \<longrightarrow> v' ! row' ! col' = v ! row' ! col')"
proof (cases "col = 0 \<or> col = w - 1 \<or> row = h - 1")
  case True
  with assms show ?thesis
    by (auto simp add: fsd_visit_border shape_upd2 upd2_same upd2_other)
next
  case False
  with assms have "row + 1 < h" "0 < col" "col + 1 < w" by auto
  from fsd_visit_interior [OF assms(1) this] False show ?thesis by simp
qed

lemma every3_mult: "every3 (w * 3) = map (\<lambda>k. k * 3) [0..<w]"
proof (induction w)
  case 0
  show ?case by (simp add: every3_def)
next
  case (Suc w)
  have e: "Suc w * 3 = Suc (Suc (Suc (w * 3)))" by simp
  have "[0..<Suc (Suc (Suc (w * 3)))] = [0..<w * 3] @ [w * 3, w * 3 + 1, w * 3 + 2]"
    by simp
  moreover have "(w * 3) mod 3 = 0" "(w * 3 + 1) mod 3 \<noteq> 0" "(w * 3 + 2) mod 3 \<noteq> 0"
    by presburger+
  ultimately have "every3 (Suc w * 3) = every3 (w * 3) @ [w * 3]"
    unfolding e every3_def by (simp only: filter_append filter.simps if_True if_False append_Nil2 refl)
  with Suc show ?case by simp
qed

lemma shapeI: "length v = h \<Longrightarrow> (\<And>r. r < h \<Longrightarrow> length (v ! r) = w) \<Longrightarrow> shape w h v"
  unfolding shape_def by (metis in_set_conv_nth)

lemma to_grayscale_consistent:
  assumes "consistent img" "m_pixelSize img = 3"
  shows "to_grayscale img =
           Some (map (\<lambda>row. map (gray_mean (m_bitmapData img) row) [0..<m_width img]) [0..<m_height img])"
proof -
  let ?w = "m_width img" and ?h = "m_height img" and ?v = "m_bitmapData img"
  have sh: "shape (?w * 3) ?h ?v" using assms by (simp add: consistent_def)
  have inner: "collect (every3 (?w * 3)) (\<lambda>col. do {
         a \<leftarrow> at2 ?v row col;
         b \<leftarrow> at2 ?v row (col + 1);
         c \<leftarrow> at2 ?v row (col + 2);
         Some (word_of_nat ((unat a + unat b + unat c) div 3)) })
       = Some (map (gray_mean ?v row) [0..<?w])" if "row < ?h" for row
  proof -
    have "collect (map (\<lambda>k. k * 3) [0..<?w]) (\<lambda>col. do {
         a \<leftarrow> at2 ?v row col;
         b \<leftarrow> at2 ?v row (col + 1);
         c \<leftarrow> at2 ?v row (col + 2);
         Some (word_of_nat ((unat a + unat b + unat c) div 3)) })
       = Some (map (\<lambda>col. gray_mean ?v row (col div 3)) (map (\<lambda>k. k * 3) [0..<?w]))"
    proof (rule collect_map)
      fix col assume "col \<in> set (map (\<lambda>k. k * 3) [0..<?w])"
      then obtain k where k: "col = k * 3" "k < ?w" by auto
      then have b: "k * 3 < ?w * 3" "k * 3 + 1 < ?w * 3" "k * 3 + 2 < ?w * 3" by auto
      show "do {
         a \<leftarrow> at2 ?v row col;
         b \<leftarrow> at2 ?v row (col + 1);
         c \<leftarrow> at2 ?v row (col + 2);
         Some (word_of_nat ((unat a + unat b + unat c) div 3)) } = Some (gray_mean ?v row (col div 3))"
        using at2_shape [OF sh that b(1)] at2_shape [OF sh that b(2)] at2_shape [OF sh that b(3)]
        by (simp add: k gray_mean_def)
    qed
    then show ?thesis by (simp add: every3_mult comp_def)
  qed
  show ?thesis
    unfolding to_grayscale_def assms(2)
    by (rule collect_map) (use inner in simp)
qed

lemma triple_concat_length: "length (concat (map (\<lambda>c. [f c, f c, f c]) [0..<w])) = w * 3"
  by (induction w) auto

lemma triple_concat_nth:
  "c < w \<Longrightarrow> i < 3 \<Longrightarrow> concat (map (\<lambda>c. [f c, f c, f c]) [0..<w]) ! (c * 3 + i) = f c"
proof (induction w)
  case 0
  then show ?case by simp
next
  case (Suc w)
  show ?case
  proof (cases "c < w")
    case True
    then have "c * 3 + i < w * 3" using Suc.prems by auto
    with Suc.IH [OF True Suc.prems(2)] show ?thesis
      by (simp add: nth_append triple_concat_length)
  next
    case False
    with Suc.prems have "c = w" by simp
    moreover have "i = 0 \<or> i = 1 \<or> i = 2" using Suc.prems by auto
    ultimately show ?thesis
      by (auto simp add: nth_append triple_concat_length)
  qed
qed

lemma to_3_channels_shape:
  assumes "shape w h v"
  shows "to_3_channels w h v =
           Some (map (\<lambda>row. concat (map (\<lambda>col. [v ! row ! col, v ! row ! col, v ! row ! col]) [0..<w])) [0..<h])"
proof -
  have inner: "collect [0..<w] (\<lambda>col. do {
         a \<leftarrow> at2 v row col;
         b \<leftarrow> at2 v row col;
         c \<leftarrow> at2 v row col;
         Some [a, b, c] }) = Some (map (\<lambda>col. [v ! row ! col, v ! row ! col, v ! row ! col]) [0..<w])"
    if "row < h" for row
    by (rule collect_map) (simp add: at2_shape [OF assms that])
  show ?thesis
    unfolding to_3_channels_def
    by (rule collect_map) (use inner in simp)
qed

lemma upt3: "[0..<3] = [0, 1, 2]"
  by (simp add: numeral_3_eq_3 upt_rec)

lemma upt_split: "c < w \<Longrightarrow> [0..<w] = [0..<c] @ c # [Suc c..<w]"
  by (metis le_add2 le_add_same_cancel2 less_imp_add_positive upt_add_eq_append upt_conv_Cons)

lemma replace_bitmap_shape:
  assumes "shape (w * p) h v" "0 < h" "0 < p" "m_pixelSize img = p"
  shows "replace_bitmap img v = Returned (img\<lparr>m_bitmapData := v, m_height := h, m_width := w\<rparr>)"
proof -
  from assms obtain row0 rest where v: "v = row0 # rest"
    by (cases v) (auto simp: shape_def)
  with assms have "length row0 = w * p" "length v = h" by (auto simp: shape_def)
  with assms v show ?thesis by (simp add: replace_bitmap_def)
qed

lemma getPixel_consistent:
  assumes "consistent img" "m_pixelSize img = 3" "y < m_height img" "x < m_width img"
  shows "getPixel img x y = Value [m_bitmapData img ! y ! (x * 3), m_bitmapData img ! y ! (x * 3 + 1),
            m_bitmapData img ! y ! (x * 3 + 2)]"
proof -
  let ?v = "m_bitmapData img"
  have sh: "shape (m_width img * 3) (m_height img) ?v"
    using assms by (simp add: consistent_def)
  then have len: "length ?v = m_height img" by (simp add: shape_def)
  have l0: "length (?v ! 0) = m_width img * 3"
    using shape_row [OF sh, of 0] assms(3) by simp
  have b: "x * 3 < m_width img * 3" "x * 3 + 1 < m_width img * 3" "x * 3 + 2 < m_width img * 3"
    using assms(4) by auto
  have "collect [0..<3] (\<lambda>n. at2 ?v y (x * 3 + n)) = Some [?v ! y ! (x * 3), ?v ! y ! (x * 3 + 1), ?v ! y ! (x * 3 + 2)]"
    using at2_shape [OF sh assms(3) b(1)] at2_shape [OF sh assms(3) b(2)] at2_shape [OF sh assms(3) b(3)]
    by (simp add: upt3)
  then show ?thesis
    using assms(3,4) by (simp add: getPixel_def len l0 assms(2))
qed

lemma fsd_final:
  assumes "consistent img" "m_pixelSize img = 3" "row < m_height img" "col < m_width img"
  shows "\<exists>g s out.
           to_grayscale img = Some g
         \<and> g = map (\<lambda>row. map (gray_mean (m_bitmapData img) row) [0..<m_width img]) [0..<m_height img]
         \<and> fsd_reached (m_width img) (m_height img) row col g = Some s
         \<and> shape (m_width img) (m_height img) s
         \<and> fsd img = Returned out
         \<and> consistent out \<and> m_pixelSize out = 3
         \<and> m_width out = m_width img \<and> m_height out = m_height img
         \<and> getPixel out col row =
             Value (replicate 3
               (if col = 0 \<or> col = m_width img - 1 \<or> row = m_height img - 1 then 0xFF
                else fsd_newPixel (s ! row ! col)))"
proof -
  let ?w = "m_width img" and ?h = "m_height img"
  define g where "g = map (\<lambda>row. map (gray_mean (m_bitmapData img) row) [0..<?w]) [0..<?h]"
  have gray: "to_grayscale img = Some g"
    unfolding g_def by (rule to_grayscale_consistent [OF assms(1,2)])
  have shg: "shape ?w ?h g"
    by (rule shapeI) (simp_all add: g_def)
  have "\<exists>s s' out.
           Option.bind (for_each [0..<row] (\<lambda>r. for_each [0..<?w] (fsd_visit ?w ?h r)) g)
             (for_each [0..<col] (fsd_visit ?w ?h row)) = Some s
         \<and> shape ?w ?h s \<and> fsd_visit ?w ?h row col s = Some s' \<and> shape ?w ?h s'
         \<and> for_each [0..<?h] (\<lambda>r. for_each [0..<?w] (fsd_visit ?w ?h r)) g = Some out
         \<and> shape ?w ?h out \<and> out ! row ! col = s' ! row ! col"
  proof (rule scan_visit [where I = "shape ?w ?h" and obs = "\<lambda>s. s ! row ! col" and h = ?h and bs = "[Suc col..<?w]"])
    show "shape ?w ?h g" by (rule shg)
    show "row < ?h" by (rule assms(3))
    show "[0..<?w] = [0..<col] @ col # [Suc col..<?w]" by (rule upt_split [OF assms(4)])
  next
    fix r' c' and s :: bitmap assume "r' < ?h" "c' \<in> set [0..<?w]" "shape ?w ?h s"
    then show "\<exists>s'. fsd_visit ?w ?h r' c' s = Some s' \<and> shape ?w ?h s'"
      using fsd_visit_total [of ?w ?h s r' c'] by auto
  next
    fix r' c' and s s' :: bitmap
    assume a: "r' < ?h" "row < r' \<and> c' \<in> set [0..<?w] \<or> r' = row \<and> c' \<in> set [Suc col..<?w]"
      "shape ?w ?h s" "fsd_visit ?w ?h r' c' s = Some s'"
    then have "c' < ?w" by auto
    from fsd_visit_total [OF a(3) a(1) this] a(4)
    have "\<forall>row' col'. row' < r' \<or> (row' = r' \<and> col' < c') \<longrightarrow> s' ! row' ! col' = s ! row' ! col'"
      by auto
    moreover have "row < r' \<or> (row = r' \<and> col < c')" using a(2) by auto
    ultimately show "s' ! row ! col = s ! row ! col" by blast
  qed
  then obtain s s' d where s: "fsd_reached ?w ?h row col g = Some s" "shape ?w ?h s"
    and s': "fsd_visit ?w ?h row col s = Some s'"
    and d: "fsd_dither ?w ?h g = Some d" "shape ?w ?h d" "d ! row ! col = s' ! row ! col"
    unfolding fsd_reached_def fsd_dither_def by blast
  let ?q = "if col = 0 \<or> col = ?w - 1 \<or> row = ?h - 1 then 0xFF else fsd_newPixel (s ! row ! col)"
  have q: "d ! row ! col = ?q"
    using fsd_visit_total [OF s(2) assms(3,4)] s' d(3) by auto
  define t where "t = map (\<lambda>row. concat (map (\<lambda>col. [d ! row ! col, d ! row ! col, d ! row ! col]) [0..<?w])) [0..<?h]"
  have t: "to_3_channels ?w ?h d = Some t"
    unfolding t_def by (rule to_3_channels_shape [OF d(2)])
  have sht: "shape (?w * 3) ?h t"
    by (rule shapeI) (simp_all add: t_def triple_concat_length)
  define out where "out = img\<lparr>m_pixelSize := 3, m_bitmapData := t, m_height := ?h, m_width := ?w\<rparr>"
  have "replace_bitmap (img\<lparr>m_pixelSize := 3\<rparr>) t = Returned out"
    unfolding out_def using replace_bitmap_shape [OF sht, of "img\<lparr>m_pixelSize := 3\<rparr>"] assms(3) by simp
  then have run: "fsd img = Returned out"
    by (simp add: fsd_def gray d(1) t)
  have co: "consistent out" "m_pixelSize out = 3" "m_width out = ?w" "m_height out = ?h"
    using sht by (simp_all add: out_def consistent_def)
  have gp: "getPixel out col row = Value [t ! row ! (col * 3), t ! row ! (col * 3 + 1), t ! row ! (col * 3 + 2)]"
    using getPixel_consistent [OF co(1,2)] assms(3,4) by (simp add: out_def)
  have tn: "t ! row ! (col * 3 + i) = d ! row ! col" if "i < 3" for i
    using assms(3,4) that by (simp add: t_def triple_concat_nth)
  have e: "t ! row ! (col * 3) = d ! row ! col" "t ! row ! (col * 3 + 1) = d ! row ! col"
    "t ! row ! (col * 3 + 2) = d ! row ! col"
    using tn [of 0] tn [of 1] tn [of 2] by simp_all
  have r3: "replicate 3 x = [x, x, x]" for x :: byte by (simp add: numeral_3_eq_3)
  have "getPixel out col row = Value (replicate 3 ?q)"
    unfolding gp e q r3 ..
  with gray s run co show ?thesis unfolding g_def by blast
qed

section \<open>The palette ditherer: the search and the loop body\<close>

lemma auxDistance_radicand: "auxDistance r g b idxPalet = sqrt (of_int (radicand r g b idxPalet))"
proof (cases "(uint r + uint (palet ! idxPalet ! 0)) div 2 < 128")
  case True
  then show ?thesis unfolding auxDistance_def radicand_def Let_def by (simp only: if_True)
next
  case False
  then show ?thesis unfolding auxDistance_def radicand_def Let_def by (simp only: if_False)
qed

lemma search_rounds_agree:
  "fold (search_round r g b) xs (sqrt (of_int x), i)
     = (sqrt (of_int (fst (fold (search_round_radicand r g b) xs (x, i)))),
        snd (fold (search_round_radicand r g b) xs (x, i)))"
proof (induction xs arbitrary: x i)
  case Nil
  show ?case by simp
next
  case (Cons idx xs)
  have step: "search_round r g b idx (sqrt (of_int x), i)
      = (sqrt (of_int (fst (search_round_radicand r g b idx (x, i)))),
         snd (search_round_radicand r g b idx (x, i)))"
    by (simp add: search_round_def search_round_radicand_def auxDistance_radicand)
  show ?case
    using Cons.IH [of "fst (search_round_radicand r g b idx (x, i))"
        "snd (search_round_radicand r g b idx (x, i))"]
    by (simp add: step)
qed

lemma idColor_code [code]:
  "idColor r g b = snd (fold (search_round_radicand r g b) [0..<7] (0, 0))"
  using search_rounds_agree [of r g b "[0..<7]" 0 0] by (simp add: idColor_def)

lemma search_fold:
  "let F = fold (search_round r g b) [0..<Suc n] init
   in snd F < Suc n \<and> fst F = auxDistance r g b (snd F)
      \<and> (\<forall>j < Suc n. fst F \<le> auxDistance r g b j)
      \<and> (\<forall>j < snd F. fst F < auxDistance r g b j)"
proof (induction n)
  case 0
  show ?case by (simp add: search_round_def)
next
  case (Suc n)
  define F where "F = fold (search_round r g b) [0..<Suc n] init"
  have F: "snd F < Suc n" "fst F = auxDistance r g b (snd F)"
    "\<And>j. j < Suc n \<Longrightarrow> fst F \<le> auxDistance r g b j"
    "\<And>j. j < snd F \<Longrightarrow> fst F < auxDistance r g b j"
    using Suc.IH unfolding F_def Let_def by auto
  have step: "fold (search_round r g b) [0..<Suc (Suc n)] init = search_round r g b (Suc n) F"
    unfolding F_def by simp
  show ?case
  proof (cases "fst F > auxDistance r g b (Suc n)")
    case True
    then have "search_round r g b (Suc n) F = (auxDistance r g b (Suc n), Suc n)"
      by (simp add: search_round_def)
    moreover have "auxDistance r g b (Suc n) < auxDistance r g b j" if "j < Suc n" for j
      using True F(3) [OF that] by simp
    ultimately show ?thesis
      unfolding step Let_def by (auto simp: less_Suc_eq [of _ "Suc n"] intro: less_imp_le)
  next
    case False
    then have "search_round r g b (Suc n) F = F"
      by (simp add: search_round_def)
    with False F show ?thesis
      unfolding step Let_def by (auto simp: less_Suc_eq [of _ "Suc n"])
  qed
qed

lemma idColor_props:
  "idColor r g b < 7"
  "j < 7 \<Longrightarrow> auxDistance r g b (idColor r g b) \<le> auxDistance r g b j"
  "j < idColor r g b \<Longrightarrow> auxDistance r g b (idColor r g b) < auxDistance r g b j"
  using search_fold [of r g b 6 "(0, 0)"]
  unfolding idColor_def Let_def by (auto simp: eval_nat_numeral)

lemma palet_entry:
  "i < 7 \<Longrightarrow> palet ! i = [palet ! i ! 0, palet ! i ! 1, palet ! i ! 2]"
proof -
  assume "i < 7"
  then have "i = 0 \<or> i = 1 \<or> i = 2 \<or> i = 3 \<or> i = 4 \<or> i = 5 \<or> i = 6" by arith
  then show ?thesis by (auto simp: palet_def)
qed

lemma distinct_palet: "distinct palet"
  by (simp add: palet_def)

lemma weighted_squares_zero:
  fixes x y z :: int
  assumes "0 < a" "0 < b" "0 < c"
  shows "a * x * x + b * y * y + c * z * z = 0 \<longleftrightarrow> x = 0 \<and> y = 0 \<and> z = 0"
proof -
  have n: "0 \<le> a * (x * x)" "0 \<le> b * (y * y)" "0 \<le> c * (z * z)"
    using assms by simp_all
  have "a * (x * x) + b * (y * y) + c * (z * z) = 0
        \<longleftrightarrow> a * (x * x) = 0 \<and> b * (y * y) = 0 \<and> c * (z * z) = 0"
    using n by linarith
  also have "\<dots> \<longleftrightarrow> x = 0 \<and> y = 0 \<and> z = 0"
    using assms by simp
  finally show ?thesis by (simp only: mult.assoc)
qed

lemma sqrt_of_int_zero: "sqrt (of_int n) = 0 \<longleftrightarrow> n = 0"
  by simp

lemma weighted_squares_nonneg:
  fixes x y z :: int
  assumes "0 < a" "0 < b" "0 < c"
  shows "0 \<le> a * x * x + b * y * y + c * z * z"
proof -
  have "0 \<le> a * (x * x)" "0 \<le> b * (y * y)" "0 \<le> c * (z * z)"
    using assms by simp_all
  then show ?thesis by (simp only: mult.assoc add_nonneg_nonneg)
qed

lemma auxDistance_nonneg: "0 \<le> auxDistance r g b j"
proof -
  define dR where "dR = uint r - uint (palet ! j ! 0)"
  define dG where "dG = uint g - uint (palet ! j ! 1)"
  define dB where "dB = uint b - uint (palet ! j ! 2)"
  have aux: "auxDistance r g b j =
      (if (uint r + uint (palet ! j ! 0)) div 2 < 128
       then sqrt (of_int (2 * dR * dR + 4 * dG * dG + 3 * dB * dB))
       else sqrt (of_int (3 * dR * dR + 4 * dG * dG + 2 * dB * dB)))"
    unfolding auxDistance_def Let_def dR_def dG_def dB_def ..
  show ?thesis
    unfolding aux
    using weighted_squares_nonneg [of 2 4 3 dR dG dB] weighted_squares_nonneg [of 3 4 2 dR dG dB]
    by (simp only: real_sqrt_ge_0_iff of_int_0_le_iff zero_less_numeral if_split simp_thms)
qed

lemma auxDistance_zero_iff:
  assumes "j < 7"
  shows "auxDistance r g b j = 0 \<longleftrightarrow> [r, g, b] = palet ! j"
proof -
  define dR where "dR = uint r - uint (palet ! j ! 0)"
  define dG where "dG = uint g - uint (palet ! j ! 1)"
  define dB where "dB = uint b - uint (palet ! j ! 2)"
  have aux: "auxDistance r g b j =
      (if (uint r + uint (palet ! j ! 0)) div 2 < 128
       then sqrt (of_int (2 * dR * dR + 4 * dG * dG + 3 * dB * dB))
       else sqrt (of_int (3 * dR * dR + 4 * dG * dG + 2 * dB * dB)))"
    unfolding auxDistance_def Let_def dR_def dG_def dB_def ..
  have "auxDistance r g b j = 0 \<longleftrightarrow> dR = 0 \<and> dG = 0 \<and> dB = 0"
    unfolding aux
    by (simp only: sqrt_of_int_zero weighted_squares_zero [of 2 4 3] weighted_squares_zero [of 3 4 2]
          if_distrib [of "\<lambda>x. x = 0"] zero_less_numeral if_cancel simp_thms)
  also have "\<dots> \<longleftrightarrow> r = palet ! j ! 0 \<and> g = palet ! j ! 1 \<and> b = palet ! j ! 2"
    unfolding dR_def dG_def dB_def by (simp add: word_uint_eq_iff)
  also have "\<dots> \<longleftrightarrow> [r, g, b] = palet ! j"
    using palet_entry [OF assms] by (metis list.inject)
  finally show ?thesis .
qed

lemma idColor_exact:
  assumes "i < 7" "[r, g, b] = palet ! i"
  shows "idColor r g b = i"
proof -
  have zero: "auxDistance r g b i = 0"
    using auxDistance_zero_iff [OF assms(1)] assms(2) by simp
  have "auxDistance r g b (idColor r g b) \<le> 0"
    using idColor_props(2) [OF assms(1), of r g b] zero by simp
  with auxDistance_nonneg [of r g b "idColor r g b"]
  have "auxDistance r g b (idColor r g b) = 0" by simp
  then have "[r, g, b] = palet ! idColor r g b"
    using auxDistance_zero_iff [OF idColor_props(1)] by simp
  with assms(2) have "palet ! idColor r g b = palet ! i" by simp
  moreover have "length palet = 7" by (simp add: palet_def)
  ultimately show ?thesis
    using distinct_palet idColor_props(1) [of r g b] assms(1)
    by (simp add: nth_eq_iff_index_eq)
qed

lemma add2_step:
  assumes "shape w h v" "r < h" "c < w"
  shows "\<exists>v'. add2 v r c d = Some v' \<and> shape w h v'
           \<and> (\<forall>r' c'. r' \<noteq> r \<or> c' \<noteq> c \<longrightarrow> v' ! r' ! c' = v ! r' ! c')"
  using add2_shape [OF assms] shape_upd2 [OF assms(1)] upd2_other by metis

lemma put2_step:
  assumes "shape w h v" "r < h" "c < w"
  shows "\<exists>v'. put2 v r c x = Some v' \<and> shape w h v' \<and> v' ! r ! c = x
           \<and> (\<forall>r' c'. r' \<noteq> r \<or> c' \<noteq> c \<longrightarrow> v' ! r' ! c' = v ! r' ! c')"
  using put2_shape [OF assms] shape_upd2 [OF assms(1)] upd2_same [OF assms] upd2_other by metis

lemma fsdColor_visit_border:
  assumes sh: "shape (w * 3) h v" and rh: "row < h" and kw: "k < w"
    and border: "k = 0 \<or> k = w - 1 \<or> row = h - 1"
  shows "\<exists>v'. fsdColor_visit (w * 3) 3 h row (k * 3) v = Some v' \<and> shape (w * 3) h v'
            \<and> [v' ! row ! (k * 3), v' ! row ! (k * 3 + 1), v' ! row ! (k * 3 + 2)] = palet ! 0
            \<and> (\<forall>row' col'. row' < row \<or> (row' = row \<and> col' < k * 3) \<longrightarrow> v' ! row' ! col' = v ! row' ! col')"
proof -
  have c: "k * 3 < w * 3" "k * 3 + 1 < w * 3" "k * 3 + 2 < w * 3" using kw by auto
  have b: "k * 3 = 0 \<or> k * 3 \<ge> w * 3 - 3 \<or> row = h - 1" using border kw by auto
  obtain v1 where v1: "put2 v row (k * 3) (palet ! 0 ! 0) = Some v1" "shape (w * 3) h v1"
    "v1 ! row ! (k * 3) = palet ! 0 ! 0"
    "\<And>r' c'. r' \<noteq> row \<or> c' \<noteq> k * 3 \<Longrightarrow> v1 ! r' ! c' = v ! r' ! c'"
    using put2_step [OF sh rh c(1), of "palet ! 0 ! 0"] by blast
  obtain v2 where v2: "put2 v1 row (k * 3 + 1) (palet ! 0 ! 1) = Some v2" "shape (w * 3) h v2"
    "v2 ! row ! (k * 3 + 1) = palet ! 0 ! 1"
    "\<And>r' c'. r' \<noteq> row \<or> c' \<noteq> k * 3 + 1 \<Longrightarrow> v2 ! r' ! c' = v1 ! r' ! c'"
    using put2_step [OF v1(2) rh c(2), of "palet ! 0 ! 1"] by blast
  obtain v3 where v3: "put2 v2 row (k * 3 + 2) (palet ! 0 ! 2) = Some v3" "shape (w * 3) h v3"
    "v3 ! row ! (k * 3 + 2) = palet ! 0 ! 2"
    "\<And>r' c'. r' \<noteq> row \<or> c' \<noteq> k * 3 + 2 \<Longrightarrow> v3 ! r' ! c' = v2 ! r' ! c'"
    using put2_step [OF v2(2) rh c(3), of "palet ! 0 ! 2"] by blast
  have run: "fsdColor_visit (w * 3) 3 h row (k * 3) v = Some v3"
    using b v1(1) v2(1) v3(1) by (simp add: fsdColor_visit_def)
  have own: "[v3 ! row ! (k * 3), v3 ! row ! (k * 3 + 1), v3 ! row ! (k * 3 + 2)] = palet ! 0"
    using v1(3) v2(3) v3(3) v2(4) [of row "k * 3"] v3(4) [of row "k * 3"] v3(4) [of row "k * 3 + 1"]
      palet_entry [of 0] by simp
  have frame: "v3 ! row' ! col' = v ! row' ! col'"
    if "row' < row \<or> (row' = row \<and> col' < k * 3)" for row' col'
  proof -
    from that have d: "row' \<noteq> row \<or> col' \<noteq> k * 3" "row' \<noteq> row \<or> col' \<noteq> k * 3 + 1"
      "row' \<noteq> row \<or> col' \<noteq> k * 3 + 2" by auto
    show ?thesis using v1(4) [OF d(1)] v2(4) [OF d(2)] v3(4) [OF d(3)] by simp
  qed
  from run v3(2) own frame show ?thesis by blast
qed

lemma fsdColor_visit_interior:
  assumes sh: "shape (w * 3) h v" and r1: "row + 1 < h" and k0: "0 < k" and k1: "k + 1 < w"
  shows "\<exists>v'. fsdColor_visit (w * 3) 3 h row (k * 3) v = Some v' \<and> shape (w * 3) h v'
            \<and> [v' ! row ! (k * 3), v' ! row ! (k * 3 + 1), v' ! row ! (k * 3 + 2)]
                = palet ! idColor (v ! row ! (k * 3)) (v ! row ! (k * 3 + 1)) (v ! row ! (k * 3 + 2))
            \<and> (\<forall>row' col'. row' < row \<or> (row' = row \<and> col' < k * 3) \<longrightarrow> v' ! row' ! col' = v ! row' ! col')"
proof -
  define idc where "idc = idColor (v ! row ! (k * 3)) (v ! row ! (k * 3 + 1)) (v ! row ! (k * 3 + 2))"
  define errorR where "errorR = fsdColor_error (v ! row ! (k * 3)) idc 0"
  define errorG where "errorG = fsdColor_error (v ! row ! (k * 3 + 1)) idc 1"
  define errorB where "errorB = fsdColor_error (v ! row ! (k * 3 + 2)) idc 2"
  have rh: "row < h" using r1 by simp
  have nb: "\<not> (k * 3 = 0 \<or> k * 3 \<ge> w * 3 - 3 \<or> row = h - 1)" using r1 k0 k1 by auto
  have rd: "at2 v row (k * 3) = Some (v ! row ! (k * 3))"
    "at2 v row (k * 3 + 1) = Some (v ! row ! (k * 3 + 1))"
    "at2 v row (k * 3 + 2) = Some (v ! row ! (k * 3 + 2))"
    using k1 by (simp_all add: at2_shape [OF sh rh])
  have a1c: "k * 3 + 0 + 3 < w * 3" using k0 k1 by auto
  obtain a1 where a1: "add2 v (row) (k * 3 + 0 + 3) (fsdColor_term errorR 7) = Some a1" "shape (w * 3) h a1"
    "\<And>r' c'. r' \<noteq> row \<or> c' \<noteq> k * 3 + 0 + 3 \<Longrightarrow> a1 ! r' ! c' = v ! r' ! c'"
    using add2_step [OF sh rh a1c, of "fsdColor_term errorR 7"] by blast
  have a2c: "k * 3 + 1 + 3 < w * 3" using k0 k1 by auto
  obtain a2 where a2: "add2 a1 (row) (k * 3 + 1 + 3) (fsdColor_term errorG 7) = Some a2" "shape (w * 3) h a2"
    "\<And>r' c'. r' \<noteq> row \<or> c' \<noteq> k * 3 + 1 + 3 \<Longrightarrow> a2 ! r' ! c' = a1 ! r' ! c'"
    using add2_step [OF a1(2) rh a2c, of "fsdColor_term errorG 7"] by blast
  have a3c: "k * 3 + 2 + 3 < w * 3" using k0 k1 by auto
  obtain a3 where a3: "add2 a2 (row) (k * 3 + 2 + 3) (fsdColor_term errorB 7) = Some a3" "shape (w * 3) h a3"
    "\<And>r' c'. r' \<noteq> row \<or> c' \<noteq> k * 3 + 2 + 3 \<Longrightarrow> a3 ! r' ! c' = a2 ! r' ! c'"
    using add2_step [OF a2(2) rh a3c, of "fsdColor_term errorB 7"] by blast
  have b1c: "k * 3 + 0 + 3 < w * 3" using k0 k1 by auto
  obtain b1 where b1: "add2 a3 (row + 1) (k * 3 + 0 + 3) (fsdColor_term errorR 1) = Some b1" "shape (w * 3) h b1"
    "\<And>r' c'. r' \<noteq> row + 1 \<or> c' \<noteq> k * 3 + 0 + 3 \<Longrightarrow> b1 ! r' ! c' = a3 ! r' ! c'"
    using add2_step [OF a3(2) r1 b1c, of "fsdColor_term errorR 1"] by blast
  have b2c: "k * 3 + 1 + 3 < w * 3" using k0 k1 by auto
  obtain b2 where b2: "add2 b1 (row + 1) (k * 3 + 1 + 3) (fsdColor_term errorG 1) = Some b2" "shape (w * 3) h b2"
    "\<And>r' c'. r' \<noteq> row + 1 \<or> c' \<noteq> k * 3 + 1 + 3 \<Longrightarrow> b2 ! r' ! c' = b1 ! r' ! c'"
    using add2_step [OF b1(2) r1 b2c, of "fsdColor_term errorG 1"] by blast
  have b3c: "k * 3 + 2 + 3 < w * 3" using k0 k1 by auto
  obtain b3 where b3: "add2 b2 (row + 1) (k * 3 + 2 + 3) (fsdColor_term errorB 1) = Some b3" "shape (w * 3) h b3"
    "\<And>r' c'. r' \<noteq> row + 1 \<or> c' \<noteq> k * 3 + 2 + 3 \<Longrightarrow> b3 ! r' ! c' = b2 ! r' ! c'"
    using add2_step [OF b2(2) r1 b3c, of "fsdColor_term errorB 1"] by blast
  have c1c: "k * 3 + 0 < w * 3" using k0 k1 by auto
  obtain c1 where c1: "add2 b3 (row + 1) (k * 3 + 0) (fsdColor_term errorR 5) = Some c1" "shape (w * 3) h c1"
    "\<And>r' c'. r' \<noteq> row + 1 \<or> c' \<noteq> k * 3 + 0 \<Longrightarrow> c1 ! r' ! c' = b3 ! r' ! c'"
    using add2_step [OF b3(2) r1 c1c, of "fsdColor_term errorR 5"] by blast
  have c2c: "k * 3 + 1 < w * 3" using k0 k1 by auto
  obtain c2 where c2: "add2 c1 (row + 1) (k * 3 + 1) (fsdColor_term errorG 5) = Some c2" "shape (w * 3) h c2"
    "\<And>r' c'. r' \<noteq> row + 1 \<or> c' \<noteq> k * 3 + 1 \<Longrightarrow> c2 ! r' ! c' = c1 ! r' ! c'"
    using add2_step [OF c1(2) r1 c2c, of "fsdColor_term errorG 5"] by blast
  have c3c: "k * 3 + 2 < w * 3" using k0 k1 by auto
  obtain c3 where c3: "add2 c2 (row + 1) (k * 3 + 2) (fsdColor_term errorB 5) = Some c3" "shape (w * 3) h c3"
    "\<And>r' c'. r' \<noteq> row + 1 \<or> c' \<noteq> k * 3 + 2 \<Longrightarrow> c3 ! r' ! c' = c2 ! r' ! c'"
    using add2_step [OF c2(2) r1 c3c, of "fsdColor_term errorB 5"] by blast
  have d1c: "k * 3 - 0 - 3 < w * 3" using k0 k1 by auto
  obtain d1 where d1: "add2 c3 (row + 1) (k * 3 - 0 - 3) (fsdColor_term errorR 3) = Some d1" "shape (w * 3) h d1"
    "\<And>r' c'. r' \<noteq> row + 1 \<or> c' \<noteq> k * 3 - 0 - 3 \<Longrightarrow> d1 ! r' ! c' = c3 ! r' ! c'"
    using add2_step [OF c3(2) r1 d1c, of "fsdColor_term errorR 3"] by blast
  have d2c: "k * 3 + 1 - 3 < w * 3" using k0 k1 by auto
  obtain d2 where d2: "add2 d1 (row + 1) (k * 3 + 1 - 3) (fsdColor_term errorG 3) = Some d2" "shape (w * 3) h d2"
    "\<And>r' c'. r' \<noteq> row + 1 \<or> c' \<noteq> k * 3 + 1 - 3 \<Longrightarrow> d2 ! r' ! c' = d1 ! r' ! c'"
    using add2_step [OF d1(2) r1 d2c, of "fsdColor_term errorG 3"] by blast
  have d3c: "k * 3 + 2 - 3 < w * 3" using k0 k1 by auto
  obtain d3 where d3: "add2 d2 (row + 1) (k * 3 + 2 - 3) (fsdColor_term errorB 3) = Some d3" "shape (w * 3) h d3"
    "\<And>r' c'. r' \<noteq> row + 1 \<or> c' \<noteq> k * 3 + 2 - 3 \<Longrightarrow> d3 ! r' ! c' = d2 ! r' ! c'"
    using add2_step [OF d2(2) r1 d3c, of "fsdColor_term errorB 3"] by blast
  have e1c: "k * 3 < w * 3" using k0 k1 by auto
  obtain e1 where e1: "put2 d3 (row) (k * 3) (palet ! idc ! 0) = Some e1" "shape (w * 3) h e1"
    "\<And>r' c'. r' \<noteq> row \<or> c' \<noteq> k * 3 \<Longrightarrow> e1 ! r' ! c' = d3 ! r' ! c'"
    "e1 ! (row) ! (k * 3) = palet ! idc ! 0"
    using put2_step [OF d3(2) rh e1c, of "palet ! idc ! 0"] by blast
  have e2c: "k * 3 + 1 < w * 3" using k0 k1 by auto
  obtain e2 where e2: "put2 e1 (row) (k * 3 + 1) (palet ! idc ! 1) = Some e2" "shape (w * 3) h e2"
    "\<And>r' c'. r' \<noteq> row \<or> c' \<noteq> k * 3 + 1 \<Longrightarrow> e2 ! r' ! c' = e1 ! r' ! c'"
    "e2 ! (row) ! (k * 3 + 1) = palet ! idc ! 1"
    using put2_step [OF e1(2) rh e2c, of "palet ! idc ! 1"] by blast
  have e3c: "k * 3 + 2 < w * 3" using k0 k1 by auto
  obtain e3 where e3: "put2 e2 (row) (k * 3 + 2) (palet ! idc ! 2) = Some e3" "shape (w * 3) h e3"
    "\<And>r' c'. r' \<noteq> row \<or> c' \<noteq> k * 3 + 2 \<Longrightarrow> e3 ! r' ! c' = e2 ! r' ! c'"
    "e3 ! (row) ! (k * 3 + 2) = palet ! idc ! 2"
    using put2_step [OF e2(2) rh e3c, of "palet ! idc ! 2"] by blast
  have run: "fsdColor_visit (w * 3) 3 h row (k * 3) v = Some e3"
    using nb rd a1(1) a2(1) a3(1) b1(1) b2(1) b3(1) c1(1) c2(1) c3(1) d1(1) d2(1) d3(1) e1(1) e2(1) e3(1)
    by (simp add: fsdColor_visit_def Let_def idc_def errorR_def errorG_def errorB_def)
  have "idc < 7" unfolding idc_def by (rule idColor_props(1))
  then have pe: "palet ! idc = [palet ! idc ! 0, palet ! idc ! 1, palet ! idc ! 2]"
    by (rule palet_entry)
  have "e3 ! row ! (k * 3) = palet ! idc ! 0"
    using e3(3) [of row "k * 3"] e2(3) [of row "k * 3"] e1(4) by simp
  moreover have "e3 ! row ! (k * 3 + 1) = palet ! idc ! 1"
    using e3(3) [of row "k * 3 + 1"] e2(4) by simp
  moreover have "e3 ! row ! (k * 3 + 2) = palet ! idc ! 2"
    using e3(4) by simp
  ultimately have own: "[e3 ! row ! (k * 3), e3 ! row ! (k * 3 + 1), e3 ! row ! (k * 3 + 2)] = palet ! idc"
    using pe by simp
  have frame: "e3 ! row' ! col' = v ! row' ! col'"
    if b: "row' < row \<or> (row' = row \<and> col' < k * 3)" for row' col'
  proof -
    have "a1 ! row' ! col' = v ! row' ! col'" using b by (intro a1(3)) auto
    moreover
    have "a2 ! row' ! col' = a1 ! row' ! col'" using b by (intro a2(3)) auto
    moreover
    have "a3 ! row' ! col' = a2 ! row' ! col'" using b by (intro a3(3)) auto
    moreover
    have "b1 ! row' ! col' = a3 ! row' ! col'" using b by (intro b1(3)) auto
    moreover
    have "b2 ! row' ! col' = b1 ! row' ! col'" using b by (intro b2(3)) auto
    moreover
    have "b3 ! row' ! col' = b2 ! row' ! col'" using b by (intro b3(3)) auto
    moreover
    have "c1 ! row' ! col' = b3 ! row' ! col'" using b by (intro c1(3)) auto
    moreover
    have "c2 ! row' ! col' = c1 ! row' ! col'" using b by (intro c2(3)) auto
    moreover
    have "c3 ! row' ! col' = c2 ! row' ! col'" using b by (intro c3(3)) auto
    moreover
    have "d1 ! row' ! col' = c3 ! row' ! col'" using b by (intro d1(3)) auto
    moreover
    have "d2 ! row' ! col' = d1 ! row' ! col'" using b by (intro d2(3)) auto
    moreover
    have "d3 ! row' ! col' = d2 ! row' ! col'" using b by (intro d3(3)) auto
    moreover
    have "e1 ! row' ! col' = d3 ! row' ! col'" using b by (intro e1(3)) auto
    moreover
    have "e2 ! row' ! col' = e1 ! row' ! col'" using b by (intro e2(3)) auto
    moreover
    have "e3 ! row' ! col' = e2 ! row' ! col'" using b by (intro e3(3)) auto
    ultimately show ?thesis by simp
  qed
  from run e3(2) own frame show ?thesis unfolding idc_def by blast
qed

lemma add2_zero:
  assumes "shape w h v" "r < h" "c < w"
  shows "add2 v r c 0 = Some v"
  using add2_shape [OF assms, of 0] by (simp add: upd2_def)

lemma put2_same:
  assumes "shape w h v" "r < h" "c < w"
  shows "put2 v r c (v ! r ! c) = Some v"
  using put2_shape [OF assms, of "v ! r ! c"] by (simp add: upd2_def)

lemma fsdColor_visit_exact:
  assumes sh: "shape (w * 3) h v" and r1: "row + 1 < h" and k0: "0 < k" and k1: "k + 1 < w"
    and i: "i < 7"
    and px: "[v ! row ! (k * 3), v ! row ! (k * 3 + 1), v ! row ! (k * 3 + 2)] = palet ! i"
  shows "fsdColor_visit (w * 3) 3 h row (k * 3) v = Some v"
proof -
  have idc: "idColor (v ! row ! (k * 3)) (v ! row ! (k * 3 + 1)) (v ! row ! (k * 3 + 2)) = i"
    by (rule idColor_exact [OF i px])
  have p: "palet ! i ! 0 = v ! row ! (k * 3)" "palet ! i ! 1 = v ! row ! (k * 3 + 1)"
    "palet ! i ! 2 = v ! row ! (k * 3 + 2)"
    using px [symmetric] by simp_all
  have e: "fsdColor_error (v ! row ! (k * 3)) i 0 = 0" "fsdColor_error (v ! row ! (k * 3 + 1)) i 1 = 0"
    "fsdColor_error (v ! row ! (k * 3 + 2)) i 2 = 0"
    using p by (simp_all add: fsdColor_error_def)
  have t: "fsdColor_term 0 n = 0" for n by (simp add: fsdColor_term_def)
  have rh: "row < h" using r1 by simp
  have nb: "\<not> (k * 3 = 0 \<or> k * 3 \<ge> w * 3 - 3 \<or> row = h - 1)" using r1 k0 k1 by auto
  have rd: "at2 v row (k * 3) = Some (v ! row ! (k * 3))"
    "at2 v row (k * 3 + 1) = Some (v ! row ! (k * 3 + 1))"
    "at2 v row (k * 3 + 2) = Some (v ! row ! (k * 3 + 2))"
    using k1 by (simp_all add: at2_shape [OF sh rh])
  have r1': "Suc row < h" using r1 by simp
  have a: "add2 v row (k * 3 + 0 + 3) 0 = Some v" "add2 v row (k * 3 + 1 + 3) 0 = Some v"
    "add2 v row (k * 3 + 2 + 3) 0 = Some v"
    "add2 v (row + 1) (k * 3 + 0 + 3) 0 = Some v" "add2 v (row + 1) (k * 3 + 1 + 3) 0 = Some v"
    "add2 v (row + 1) (k * 3 + 2 + 3) 0 = Some v"
    "add2 v (row + 1) (k * 3 + 0) 0 = Some v" "add2 v (row + 1) (k * 3 + 1) 0 = Some v"
    "add2 v (row + 1) (k * 3 + 2) 0 = Some v"
    "add2 v (row + 1) (k * 3 - 0 - 3) 0 = Some v" "add2 v (row + 1) (k * 3 + 1 - 3) 0 = Some v"
    "add2 v (row + 1) (k * 3 + 2 - 3) 0 = Some v"
    using k0 k1 by (simp_all add: add2_zero [OF sh rh] add2_zero [OF sh r1'])
  have q: "put2 v row (k * 3) (v ! row ! (k * 3)) = Some v"
    "put2 v row (k * 3 + 1) (v ! row ! (k * 3 + 1)) = Some v"
    "put2 v row (k * 3 + 2) (v ! row ! (k * 3 + 2)) = Some v"
    using k1 by (simp_all add: put2_same [OF sh rh])
  show ?thesis
    using nb rd a q idc e p by (simp add: fsdColor_visit_def Let_def t)
qed

lemma fsdColor_visit_total:
  assumes "shape (w * 3) h v" "row < h" "k < w"
  shows "\<exists>v'. fsdColor_visit (w * 3) 3 h row (k * 3) v = Some v' \<and> shape (w * 3) h v'
            \<and> [v' ! row ! (k * 3), v' ! row ! (k * 3 + 1), v' ! row ! (k * 3 + 2)]
                = (if k = 0 \<or> k = w - 1 \<or> row = h - 1 then palet ! 0
                   else palet ! idColor (v ! row ! (k * 3)) (v ! row ! (k * 3 + 1)) (v ! row ! (k * 3 + 2)))
            \<and> (\<forall>row' col'. row' < row \<or> (row' = row \<and> col' < k * 3) \<longrightarrow> v' ! row' ! col' = v ! row' ! col')"
proof (cases "k = 0 \<or> k = w - 1 \<or> row = h - 1")
  case True
  from fsdColor_visit_border [OF assms True] True show ?thesis by simp
next
  case False
  with assms have "row + 1 < h" "0 < k" "k + 1 < w" by auto
  from fsdColor_visit_interior [OF assms(1) this] False show ?thesis by simp
qed

lemma fsdColor_final:
  assumes "consistent img" "m_pixelSize img = 3" "row < m_height img" "k < m_width img"
  shows "\<exists>s out.
           fsdColor_reached (m_width img * 3) 3 (m_height img) row (k * 3) (m_bitmapData img) = Some s
         \<and> shape (m_width img * 3) (m_height img) s
         \<and> fsdColor img = Returned out
         \<and> consistent out \<and> m_pixelSize out = 3
         \<and> m_width out = m_width img \<and> m_height out = m_height img
         \<and> getPixel out k row =
             Value (if k = 0 \<or> k = m_width img - 1 \<or> row = m_height img - 1 then palet ! 0
                    else palet ! idColor (s ! row ! (k * 3)) (s ! row ! (k * 3 + 1)) (s ! row ! (k * 3 + 2)))"
proof -
  let ?w = "m_width img" and ?h = "m_height img" and ?v = "m_bitmapData img"
  let ?visit = "fsdColor_visit (?w * 3) 3 ?h"
  let ?f = "\<lambda>j::nat. j * 3"
  have sh: "shape (?w * 3) ?h ?v" using assms(1,2) by (simp add: consistent_def)
  have cs: "every3 (?w * 3) = map ?f [0..<k] @ (k * 3) # map ?f [Suc k..<?w]"
    unfolding every3_mult by (subst upt_split [OF assms(4)]) simp
  have "\<exists>s s' out.
           Option.bind (for_each [0..<row] (\<lambda>r. for_each (every3 (?w * 3)) (?visit r)) ?v)
             (for_each (map ?f [0..<k]) (?visit row)) = Some s
         \<and> shape (?w * 3) ?h s \<and> ?visit row (k * 3) s = Some s' \<and> shape (?w * 3) ?h s'
         \<and> for_each [0..<?h] (\<lambda>r. for_each (every3 (?w * 3)) (?visit r)) ?v = Some out
         \<and> shape (?w * 3) ?h out
         \<and> (out ! row ! (k * 3), out ! row ! (k * 3 + 1), out ! row ! (k * 3 + 2))
             = (s' ! row ! (k * 3), s' ! row ! (k * 3 + 1), s' ! row ! (k * 3 + 2))"
  proof (rule scan_visit [where I = "shape (?w * 3) ?h"
        and obs = "\<lambda>s. (s ! row ! (k * 3), s ! row ! (k * 3 + 1), s ! row ! (k * 3 + 2))"
        and h = ?h and bs = "map ?f [Suc k..<?w]"])
    show "shape (?w * 3) ?h ?v" by (rule sh)
    show "row < ?h" by (rule assms(3))
    show "every3 (?w * 3) = map ?f [0..<k] @ (k * 3) # map ?f [Suc k..<?w]" by (rule cs)
  next
    fix r' c' and s :: bitmap
    assume a: "r' < ?h" "c' \<in> set (every3 (?w * 3))" "shape (?w * 3) ?h s"
    then obtain j where j: "c' = j * 3" "j < ?w" by (auto simp: every3_mult)
    from fsdColor_visit_total [OF a(3) a(1) j(2)]
    show "\<exists>s'. ?visit r' c' s = Some s' \<and> shape (?w * 3) ?h s'"
      unfolding j(1) by blast
  next
    fix r' c' and s s' :: bitmap
    assume a: "r' < ?h"
      "row < r' \<and> c' \<in> set (every3 (?w * 3)) \<or> r' = row \<and> c' \<in> set (map ?f [Suc k..<?w])"
      "shape (?w * 3) ?h s" "?visit r' c' s = Some s'"
    then obtain j where j: "c' = j * 3" "j < ?w" by (auto simp: every3_mult)
    from fsdColor_visit_total [OF a(3) a(1) j(2)] a(4)
    have fr: "\<And>row' col'. row' < r' \<or> (row' = r' \<and> col' < c') \<Longrightarrow> s' ! row' ! col' = s ! row' ! col'"
      unfolding j(1) by auto
    have "row < r' \<or> (row = r' \<and> k * 3 + 2 < c')" using a(2) by auto
    then have "row < r' \<or> (row = r' \<and> k * 3 < c')" "row < r' \<or> (row = r' \<and> k * 3 + 1 < c')"
      "row < r' \<or> (row = r' \<and> k * 3 + 2 < c')" by auto
    then show "(s' ! row ! (k * 3), s' ! row ! (k * 3 + 1), s' ! row ! (k * 3 + 2))
             = (s ! row ! (k * 3), s ! row ! (k * 3 + 1), s ! row ! (k * 3 + 2))"
      using fr by simp
  qed
  then obtain s s' d where s: "fsdColor_reached (?w * 3) 3 ?h row (k * 3) ?v = Some s" "shape (?w * 3) ?h s"
    and s': "?visit row (k * 3) s = Some s'"
    and d: "fsdColor_dither (?w * 3) 3 ?h ?v = Some d" "shape (?w * 3) ?h d"
      "d ! row ! (k * 3) = s' ! row ! (k * 3)" "d ! row ! (k * 3 + 1) = s' ! row ! (k * 3 + 1)"
      "d ! row ! (k * 3 + 2) = s' ! row ! (k * 3 + 2)"
    unfolding fsdColor_reached_def fsdColor_dither_def every3_mult by auto
  let ?q = "if k = 0 \<or> k = ?w - 1 \<or> row = ?h - 1 then palet ! 0
            else palet ! idColor (s ! row ! (k * 3)) (s ! row ! (k * 3 + 1)) (s ! row ! (k * 3 + 2))"
  have q: "[d ! row ! (k * 3), d ! row ! (k * 3 + 1), d ! row ! (k * 3 + 2)] = ?q"
    using fsdColor_visit_total [OF s(2) assms(3,4)] s' unfolding d(3,4,5) by auto
  define out where "out = img\<lparr>m_pixelSize := 3, m_bitmapData := d, m_height := ?h, m_width := ?w\<rparr>"
  have "replace_bitmap (img\<lparr>m_pixelSize := 3\<rparr>) d = Returned out"
    unfolding out_def using replace_bitmap_shape [OF d(2), of "img\<lparr>m_pixelSize := 3\<rparr>"] assms(3) by simp
  then have run: "fsdColor img = Returned out"
    using d(1) by (simp add: fsdColor_def assms(2))
  have co: "consistent out" "m_pixelSize out = 3" "m_width out = ?w" "m_height out = ?h"
    using d(2) by (simp_all add: out_def consistent_def)
  have "getPixel out k row = Value [d ! row ! (k * 3), d ! row ! (k * 3 + 1), d ! row ! (k * 3 + 2)]"
    using getPixel_consistent [OF co(1,2)] assms(3,4) by (simp add: out_def)
  then have "getPixel out k row = Value ?q" unfolding q .
  with s run co show ?thesis by blast
qed

lemma fsd_newPixel_unat:
  "fsd_newPixel oldPixel = (if unat oldPixel \<le> 128 then 0xFF else 0x00)"
  by (simp add: fsd_newPixel_def word_le_nat_alt)


lemma palet0: "palet ! 0 = [0x38, 0x48, 0x8d]"
  by (simp add: palet_def)

lemma green_reached:
  "fsdColor_reached (m_width green_3x2 * 3) 3 (m_height green_3x2) 0 (1 * 3) (m_bitmapData green_3x2)
     = Some [[0x38, 0x48, 0x8d, 0x54, 0x7a, 0x49, 0x54, 0x7a, 0x49],
             [0x54, 0x7a, 0x49, 0x54, 0x7a, 0x49, 0x54, 0x7a, 0x49]]"
  by code_simp

section \<open>The monochrome ditherer: claims\<close>




text \<open>
  C4. In the monochrome ditherer every interior pixel (not in the first column, the last
  column or the last row) is quantized from the value \<open>oldPixel\<close> it holds when the loops
  reach it: to \<open>0xFF\<close> when \<open>oldPixel \<le> 128\<close> and to \<open>0x00\<close> when \<open>oldPixel \<ge> 129\<close>, and
  that is the pixel of the image \<open>fsd\<close> returns.
\<close>

theorem fsd_interior_threshold:
  assumes "consistent img" "m_pixelSize img = 3"
    and "row + 1 < m_height img" "0 < col" "col + 1 < m_width img"
  shows "\<exists>g v oldPixel out.
           to_grayscale img = Some g
         \<and> fsd_reached (m_width img) (m_height img) row col g = Some v
         \<and> at2 v row col = Some oldPixel
         \<and> fsd img = Returned out
         \<and> (unat oldPixel \<le> 128 \<longrightarrow> getPixel out col row = Value [0xFF, 0xFF, 0xFF])
         \<and> (129 \<le> unat oldPixel \<longrightarrow> getPixel out col row = Value [0x00, 0x00, 0x00])"
proof -
  have rh: "row < m_height img" and cw: "col < m_width img" using assms by auto
  have nb: "\<not> (col = 0 \<or> col = m_width img - 1 \<or> row = m_height img - 1)"
    using assms by auto
  from fsd_final [OF assms(1,2) rh cw] nb obtain g s out where
    g: "to_grayscale img = Some g"
    and s: "fsd_reached (m_width img) (m_height img) row col g = Some s"
      "shape (m_width img) (m_height img) s"
    and out: "fsd img = Returned out"
      "getPixel out col row = Value (replicate 3 (fsd_newPixel (s ! row ! col)))"
    by auto
  have old: "at2 s row col = Some (s ! row ! col)"
    by (rule at2_shape [OF s(2) rh cw])
  have "unat (s ! row ! col) \<le> 128 \<longrightarrow> getPixel out col row = Value [0xFF, 0xFF, 0xFF]"
    and "129 \<le> unat (s ! row ! col) \<longrightarrow> getPixel out col row = Value [0x00, 0x00, 0x00]"
    by (simp_all add: out(2) fsd_newPixel_unat numeral_3_eq_3)
  with g s(1) old out(1) show ?thesis by blast
qed

theorem fsd_interior_threshold_witness:
  "consistent stripe_4x3 \<and> m_pixelSize stripe_4x3 = 3
   \<and> 0 + 1 < m_height stripe_4x3 \<and> (0::nat) < 1 \<and> 1 + 1 < m_width stripe_4x3
   \<and> (0::nat) < 2 \<and> 2 + 1 < m_width stripe_4x3
   \<and> to_grayscale stripe_4x3 = Some [[200, 0, 200, 200], [200, 0, 200, 200], [200, 0, 200, 200]]
   \<and> fsd_reached (m_width stripe_4x3) (m_height stripe_4x3) 0 1
        [[200, 0, 200, 200], [200, 0, 200, 200], [200, 0, 200, 200]]
       = Some [[255, 0, 200, 200], [200, 0, 200, 200], [200, 0, 200, 200]]
   \<and> at2 [[255, 0, 200, 200], [200, 0, 200, 200], [200, 0, 200, 200 :: byte]] 0 1 = Some 0
   \<and> unat (0 :: byte) \<le> 128
   \<and> fsd_reached (m_width stripe_4x3) (m_height stripe_4x3) 0 2
        [[200, 0, 200, 200], [200, 0, 200, 200], [200, 0, 200, 200]]
       = Some [[255, 255, 200, 200], [200, 0, 200, 200], [200, 0, 200, 200]]
   \<and> at2 [[255, 255, 200, 200], [200, 0, 200, 200], [200, 0, 200, 200 :: byte]] 0 2 = Some 200
   \<and> 129 \<le> unat (200 :: byte)
   \<and> (\<exists>out. fsd stripe_4x3 = Returned out
          \<and> getPixel out 1 0 = Value [0xFF, 0xFF, 0xFF]
          \<and> getPixel out 2 0 = Value [0x00, 0x00, 0x00])"
proof -
  let ?g = "[[200, 0, 200, 200], [200, 0, 200, 200], [200, 0, 200, 200]] :: bitmap"
  let ?v1 = "[[255, 0, 200, 200], [200, 0, 200, 200], [200, 0, 200, 200]] :: bitmap"
  let ?v2 = "[[255, 255, 200, 200], [200, 0, 200, 200], [200, 0, 200, 200]] :: bitmap"
  have c: "consistent stripe_4x3" "m_pixelSize stripe_4x3 = 3"
    by (simp_all add: stripe_4x3_def consistent_def shape_def)
  have p1: "0 + 1 < m_height stripe_4x3" "(0::nat) < 1" "1 + 1 < m_width stripe_4x3"
    and p2: "0 + 1 < m_height stripe_4x3" "(0::nat) < 2" "2 + 1 < m_width stripe_4x3"
    by (simp_all add: stripe_4x3_def)
  have ev: "to_grayscale stripe_4x3 = Some ?g"
    "fsd_reached (m_width stripe_4x3) (m_height stripe_4x3) 0 1 ?g = Some ?v1"
    "at2 ?v1 0 1 = Some 0"
    "fsd_reached (m_width stripe_4x3) (m_height stripe_4x3) 0 2 ?g = Some ?v2"
    "at2 ?v2 0 2 = Some 200"
    by code_simp+
  have n: "unat (0 :: byte) \<le> 128" "129 \<le> unat (200 :: byte)" by simp_all
  from fsd_interior_threshold [OF c p1] ev(1,2,3) n(1) obtain out where
    out: "fsd stripe_4x3 = Returned out" "getPixel out 1 0 = Value [0xFF, 0xFF, 0xFF]"
    by auto
  from fsd_interior_threshold [OF c p2] ev(1,4,5) n(2) out(1)
  have "getPixel out 2 0 = Value [0x00, 0x00, 0x00]"
    by auto
  with out c p1 p2(2,3) ev n show ?thesis by blast
qed

text \<open>
  C2 says that both ditherers compute the error \<open>old - new\<close> as a signed quantity. In
  \<open>fsd\<close> the variable \<^verbatim>\<open>error\<close> is a \<^verbatim>\<open>uint8_t\<close>: for an interior pixel with
  \<open>old = 0\<close> and \<open>new = 0xFF\<close> the difference \<open>-255\<close> is stored as 1 and all four terms
  \<open>error * k / 16\<close> are 0, where the signed error gives \<open>-111\<close>, \<open>-47\<close>, \<open>-79\<close> and
  \<open>-15\<close> (as \<open>fsdColor\<close> computes them, with \<^verbatim>\<open>int16_t\<close> errors). On the image
  \<open>stripe_4x3\<close> the pixel at row 0, column 1 is black; nothing is diffused from it, its
  right neighbour still holds 200 when it is reached and comes out black. With the signed
  error the neighbour would hold \<open>200 - 111 = 89\<close> and come out white.
\<close>

theorem fsd_error_unsigned:
  "fsd_newPixel 0 = 0xFF \<and> fsd_error 0 = 1
   \<and> fsd_term (fsd_error 0) 7 = 0 \<and> fsd_term (fsd_error 0) 3 = 0
   \<and> fsd_term (fsd_error 0) 5 = 0 \<and> fsd_term (fsd_error 0) 1 = 0
   \<and> fsdColor_term (0 - 255) 7 = - 111 \<and> fsdColor_term (0 - 255) 3 = - 47
   \<and> fsdColor_term (0 - 255) 5 = - 79 \<and> fsdColor_term (0 - 255) 1 = - 15
   \<and> to_grayscale stripe_4x3 = Some [[200, 0, 200, 200], [200, 0, 200, 200], [200, 0, 200, 200]]
   \<and> fsd_reached 4 3 0 2 [[200, 0, 200, 200], [200, 0, 200, 200], [200, 0, 200, 200]]
        = Some [[255, 255, 200, 200], [200, 0, 200, 200], [200, 0, 200, 200]]
   \<and> fsd stripe_4x3 =
       Returned \<lparr>m_bitmapData = [[255, 255, 255, 255, 255, 255, 0, 0, 0, 255, 255, 255],
                                 [255, 255, 255, 255, 255, 255, 255, 255, 255, 255, 255, 255],
                                 [255, 255, 255, 255, 255, 255, 255, 255, 255, 255, 255, 255]],
                m_width = 4, m_height = 3, m_pixelSize = 3, m_colourSpace = 2\<rparr>"
  by code_simp

section \<open>Both ditherers: the border\<close>

text \<open>
  C5 says that, for every input buffer, border pixels are forced to the fallback and
  receive no error diffusion. On the image \<open>stripe_4x3\<close> the pixel in the last column
  of row 0 holds 200 in the grey image and 31 when the loops of \<open>fsd\<close> reach it: its
  left neighbour has added \<open>200 * 7 / 16 = 87\<close> to it; in \<open>fsdColor\<close> the same pixel
  holds \<open>(189, 184, 179)\<close> instead of \<open>(200, 200, 200)\<close> when it is reached. And on
  the consistent 1-channel image \<open>gray_4x4\<close> both ditherers, which step through the
  samples in threes, index outside a row: neither returns an image.
\<close>

theorem border_receives_error_counterexample:
  "consistent stripe_4x3 \<and> m_pixelSize stripe_4x3 = 3
   \<and> to_grayscale stripe_4x3 = Some [[200, 0, 200, 200], [200, 0, 200, 200], [200, 0, 200, 200]]
   \<and> fsd_reached 4 3 0 3 [[200, 0, 200, 200], [200, 0, 200, 200], [200, 0, 200, 200]]
        = Some [[255, 255, 0, 31], [200, 37, 6, 212], [200, 0, 200, 200]]
   \<and> fsd_term (fsd_error 200) 7 = 87
   \<and> (200 :: byte) + 87 = 31
   \<and> fsdColor_reached 12 3 3 0 9 (m_bitmapData stripe_4x3)
        = Some [[56, 72, 141, 36, 41, 51, 211, 221, 228, 189, 184, 179],
                [194, 193, 191, 241, 237, 232, 190, 187, 182, 199, 198, 197],
                [200, 200, 200, 0, 0, 0, 200, 200, 200, 200, 200, 200]]
   \<and> consistent gray_4x4 \<and> m_pixelSize gray_4x4 = 1
   \<and> to_grayscale gray_4x4 = None
   \<and> fsd gray_4x4 = Undefined_behaviour
   \<and> fsdColor gray_4x4 = Undefined_behaviour"
  by code_simp

text \<open>
  C5, as the code has it. For every consistent 3-channel image, the loops of both
  ditherers reach every pixel of the first column, the last column and the last row, and
  in the image returned that pixel is \<open>0xFF, 0xFF, 0xFF\<close> (\<open>fsd\<close>) and
  \<open>0x38, 0x48, 0x8d\<close>, the first palette entry (\<open>fsdColor\<close>), whatever the input
  holds there and whatever the interior neighbours have added to it before it is reached;
  the visit of such a pixel is nothing but that write, so no error is computed or
  diffused from it.
\<close>

theorem border_pixels_forced:
  assumes "consistent img" "m_pixelSize img = 3" "y < m_height img" "x < m_width img"
    and "x = 0 \<or> x = m_width img - 1 \<or> y = m_height img - 1"
  shows "(\<exists>g s out. to_grayscale img = Some g
            \<and> fsd_reached (m_width img) (m_height img) y x g = Some s
            \<and> fsd img = Returned out \<and> getPixel out x y = Value [0xFF, 0xFF, 0xFF])
       \<and> (\<exists>s out. fsdColor_reached (m_width img * 3) 3 (m_height img) y (x * 3) (m_bitmapData img)
              = Some s
            \<and> fsdColor img = Returned out \<and> getPixel out x y = Value [0x38, 0x48, 0x8d])
       \<and> (\<forall>v. fsd_visit (m_width img) (m_height img) y x v = put2 v y x 0xFF)
       \<and> (\<forall>v. fsdColor_visit (m_width img * 3) 3 (m_height img) y (x * 3) v =
                do { v1 \<leftarrow> put2 v y (x * 3) 0x38;
                     v2 \<leftarrow> put2 v1 y (x * 3 + 1) 0x48;
                     put2 v2 y (x * 3 + 2) 0x8d })"
proof -
  have mono: "\<exists>g s out. to_grayscale img = Some g
            \<and> fsd_reached (m_width img) (m_height img) y x g = Some s
            \<and> fsd img = Returned out \<and> getPixel out x y = Value [0xFF, 0xFF, 0xFF]"
    using fsd_final [OF assms(1-4)] assms(5) by (auto simp: numeral_3_eq_3)
  have colour: "\<exists>s out. fsdColor_reached (m_width img * 3) 3 (m_height img) y (x * 3) (m_bitmapData img)
              = Some s
            \<and> fsdColor img = Returned out \<and> getPixel out x y = Value [0x38, 0x48, 0x8d]"
    using fsdColor_final [OF assms(1-4)] assms(5) by (auto simp: palet0)
  have v1: "fsd_visit (m_width img) (m_height img) y x v = put2 v y x 0xFF" for v
    using assms(5) by (simp add: fsd_visit_def)
  have b: "x * 3 = 0 \<or> x * 3 \<ge> m_width img * 3 - 3 \<or> y = m_height img - 1"
    using assms(4,5) by auto
  have v2: "fsdColor_visit (m_width img * 3) 3 (m_height img) y (x * 3) v =
                do { v1 \<leftarrow> put2 v y (x * 3) 0x38;
                     v2 \<leftarrow> put2 v1 y (x * 3 + 1) 0x48;
                     put2 v2 y (x * 3 + 2) 0x8d }" for v
    using b by (simp add: fsdColor_visit_def palet_def)
  from mono colour v1 v2 show ?thesis by blast
qed

theorem border_pixels_forced_witness:
  "consistent stripe_4x3 \<and> m_pixelSize stripe_4x3 = 3
   \<and> 2 < m_height stripe_4x3 \<and> 1 < m_width stripe_4x3 \<and> 2 = m_height stripe_4x3 - 1
   \<and> (\<exists>out. fsd stripe_4x3 = Returned out \<and> getPixel out 1 2 = Value [0xFF, 0xFF, 0xFF])
   \<and> (\<exists>out. fsdColor stripe_4x3 = Returned out \<and> getPixel out 1 2 = Value [0x38, 0x48, 0x8d])
   \<and> 1 < m_height stripe_4x3 \<and> 0 < m_width stripe_4x3
   \<and> (\<exists>out. fsd stripe_4x3 = Returned out \<and> getPixel out 0 1 = Value [0xFF, 0xFF, 0xFF])
   \<and> (\<exists>out. fsdColor stripe_4x3 = Returned out \<and> getPixel out 0 1 = Value [0x38, 0x48, 0x8d])
   \<and> 0 < m_height stripe_4x3 \<and> 3 < m_width stripe_4x3 \<and> 3 = m_width stripe_4x3 - 1
   \<and> (\<exists>g s out. to_grayscale stripe_4x3 = Some g
          \<and> fsd_reached (m_width stripe_4x3) (m_height stripe_4x3) 0 3 g = Some s
          \<and> at2 s 0 3 = Some 31
          \<and> fsd stripe_4x3 = Returned out \<and> getPixel out 3 0 = Value [0xFF, 0xFF, 0xFF])
   \<and> (\<exists>s out. fsdColor_reached (m_width stripe_4x3 * 3) 3 (m_height stripe_4x3) 0 (3 * 3)
                 (m_bitmapData stripe_4x3) = Some s
          \<and> at2 s 0 9 = Some 189 \<and> at2 s 0 10 = Some 184 \<and> at2 s 0 11 = Some 179
          \<and> fsdColor stripe_4x3 = Returned out \<and> getPixel out 3 0 = Value [0x38, 0x48, 0x8d])"
proof -
  have c: "consistent stripe_4x3" "m_pixelSize stripe_4x3 = 3"
    by (simp_all add: stripe_4x3_def consistent_def shape_def)
  have d: "2 < m_height stripe_4x3" "1 < m_width stripe_4x3" "2 = m_height stripe_4x3 - 1"
    "1 < m_height stripe_4x3" "0 < m_width stripe_4x3"
    "0 < m_height stripe_4x3" "3 < m_width stripe_4x3" "3 = m_width stripe_4x3 - 1"
    by (simp_all add: stripe_4x3_def)
  have last_row: "1 = 0 \<or> 1 = m_width stripe_4x3 - 1 \<or> 2 = m_height stripe_4x3 - 1"
    using d(3) by simp
  have first_col: "0 = 0 \<or> 0 = m_width stripe_4x3 - 1 \<or> 1 = m_height stripe_4x3 - 1"
    by simp
  have last_col: "3 = 0 \<or> 3 = m_width stripe_4x3 - 1 \<or> 0 = m_height stripe_4x3 - 1"
    using d(8) by simp
  have ev: "to_grayscale stripe_4x3 = Some [[200, 0, 200, 200], [200, 0, 200, 200], [200, 0, 200, 200]]"
    "fsd_reached (m_width stripe_4x3) (m_height stripe_4x3) 0 3
        [[200, 0, 200, 200], [200, 0, 200, 200], [200, 0, 200, 200]]
       = Some [[255, 255, 0, 31], [200, 37, 6, 212], [200, 0, 200, 200]]"
    "at2 [[255, 255, 0, 31], [200, 37, 6, 212], [200, 0, 200, 200 :: byte]] 0 3 = Some 31"
    "fsdColor_reached (m_width stripe_4x3 * 3) 3 (m_height stripe_4x3) 0 (3 * 3)
        (m_bitmapData stripe_4x3)
       = Some [[56, 72, 141, 36, 41, 51, 211, 221, 228, 189, 184, 179],
               [194, 193, 191, 241, 237, 232, 190, 187, 182, 199, 198, 197],
               [200, 200, 200, 0, 0, 0, 200, 200, 200, 200, 200, 200]]"
    "at2 [[56, 72, 141, 36, 41, 51, 211, 221, 228, 189, 184, 179],
          [194, 193, 191, 241, 237, 232, 190, 187, 182, 199, 198, 197],
          [200, 200, 200, 0, 0, 0, 200, 200, 200, 200, 200, 200 :: byte]] 0 9 = Some 189"
    "at2 [[56, 72, 141, 36, 41, 51, 211, 221, 228, 189, 184, 179],
          [194, 193, 191, 241, 237, 232, 190, 187, 182, 199, 198, 197],
          [200, 200, 200, 0, 0, 0, 200, 200, 200, 200, 200, 200 :: byte]] 0 10 = Some 184"
    "at2 [[56, 72, 141, 36, 41, 51, 211, 221, 228, 189, 184, 179],
          [194, 193, 191, 241, 237, 232, 190, 187, 182, 199, 198, 197],
          [200, 200, 200, 0, 0, 0, 200, 200, 200, 200, 200, 200 :: byte]] 0 11 = Some 179"
    by code_simp+
  have a: "(\<exists>out. fsd stripe_4x3 = Returned out \<and> getPixel out 1 2 = Value [0xFF, 0xFF, 0xFF])"
    "(\<exists>out. fsdColor stripe_4x3 = Returned out \<and> getPixel out 1 2 = Value [0x38, 0x48, 0x8d])"
    using border_pixels_forced [OF c d(1,2) last_row] by blast+
  have b: "(\<exists>out. fsd stripe_4x3 = Returned out \<and> getPixel out 0 1 = Value [0xFF, 0xFF, 0xFF])"
    "(\<exists>out. fsdColor stripe_4x3 = Returned out \<and> getPixel out 0 1 = Value [0x38, 0x48, 0x8d])"
    using border_pixels_forced [OF c d(4,5) first_col] by blast+
  have e: "(\<exists>g s out. to_grayscale stripe_4x3 = Some g
          \<and> fsd_reached (m_width stripe_4x3) (m_height stripe_4x3) 0 3 g = Some s
          \<and> at2 s 0 3 = Some 31
          \<and> fsd stripe_4x3 = Returned out \<and> getPixel out 3 0 = Value [0xFF, 0xFF, 0xFF])"
    using border_pixels_forced [OF c d(6,7) last_col] ev(1,2,3) by auto
  have f: "(\<exists>s out. fsdColor_reached (m_width stripe_4x3 * 3) 3 (m_height stripe_4x3) 0 (3 * 3)
                 (m_bitmapData stripe_4x3) = Some s
          \<and> at2 s 0 9 = Some 189 \<and> at2 s 0 10 = Some 184 \<and> at2 s 0 11 = Some 179
          \<and> fsdColor stripe_4x3 = Returned out \<and> getPixel out 3 0 = Value [0x38, 0x48, 0x8d])"
    using border_pixels_forced [OF c d(6,7) last_col] ev(4,5,6,7) by auto
  from c d a b e f show ?thesis by (simp only: simp_thms)
qed

section \<open>The palette ditherer: claims\<close>

text \<open>
  C6. When the loops of \<open>fsdColor\<close> reach an interior pixel whose three samples are
  exactly palette entry \<open>i\<close>, the search selects \<open>i\<close>: its distance is 0 and every
  other entry is strictly farther. The three errors are 0, the visit leaves the whole
  bitmap as it is (nothing is diffused to a neighbour), and the pixel is entry \<open>i\<close> in
  the image returned. In general the search returns the lowest index among the entries of
  least distance: no entry is nearer than the selected one, and every entry of lower index
  is strictly farther.
\<close>

theorem fsdColor_exact_palette_match:
  assumes "consistent img" "m_pixelSize img = 3"
    and "row + 1 < m_height img" "0 < k" "k + 1 < m_width img"
    and "i < 7"
    and "fsdColor_reached (m_width img * 3) 3 (m_height img) row (k * 3) (m_bitmapData img) = Some s"
    and "[s ! row ! (k * 3), s ! row ! (k * 3 + 1), s ! row ! (k * 3 + 2)] = palet ! i"
  shows "idColor (s ! row ! (k * 3)) (s ! row ! (k * 3 + 1)) (s ! row ! (k * 3 + 2)) = i
       \<and> auxDistance (s ! row ! (k * 3)) (s ! row ! (k * 3 + 1)) (s ! row ! (k * 3 + 2)) i = 0
       \<and> (\<forall>j < 7. j \<noteq> i \<longrightarrow>
            0 < auxDistance (s ! row ! (k * 3)) (s ! row ! (k * 3 + 1)) (s ! row ! (k * 3 + 2)) j)
       \<and> fsdColor_error (s ! row ! (k * 3)) i 0 = 0
       \<and> fsdColor_error (s ! row ! (k * 3 + 1)) i 1 = 0
       \<and> fsdColor_error (s ! row ! (k * 3 + 2)) i 2 = 0
       \<and> fsdColor_visit (m_width img * 3) 3 (m_height img) row (k * 3) s = Some s
       \<and> (\<exists>out. fsdColor img = Returned out \<and> getPixel out k row = Value (palet ! i))
       \<and> (\<forall>r g b. idColor r g b < 7
             \<and> (\<forall>j < 7. auxDistance r g b (idColor r g b) \<le> auxDistance r g b j)
             \<and> (\<forall>j < idColor r g b. auxDistance r g b (idColor r g b) < auxDistance r g b j))"
proof -
  let ?r = "s ! row ! (k * 3)" and ?g = "s ! row ! (k * 3 + 1)" and ?b = "s ! row ! (k * 3 + 2)"
  have rh: "row < m_height img" and kw: "k < m_width img" using assms by auto
  have nb: "\<not> (k = 0 \<or> k = m_width img - 1 \<or> row = m_height img - 1)" using assms by auto
  from fsdColor_final [OF assms(1,2) rh kw] assms(7) nb obtain out where
    sh: "shape (m_width img * 3) (m_height img) s"
    and out: "fsdColor img = Returned out" "getPixel out k row = Value (palet ! idColor ?r ?g ?b)"
    by auto
  have idc: "idColor ?r ?g ?b = i" by (rule idColor_exact [OF assms(6,8)])
  have zero: "auxDistance ?r ?g ?b i = 0"
    using auxDistance_zero_iff [OF assms(6)] assms(8) by simp
  have far: "0 < auxDistance ?r ?g ?b j" if "j < 7" "j \<noteq> i" for j
  proof -
    have "length palet = 7" by (simp add: palet_def)
    then have "palet ! j \<noteq> palet ! i"
      using distinct_palet that assms(6) by (simp add: nth_eq_iff_index_eq)
    then have "auxDistance ?r ?g ?b j \<noteq> 0"
      using auxDistance_zero_iff [OF that(1), of ?r ?g ?b] assms(8) by simp
    with auxDistance_nonneg [of ?r ?g ?b j] show ?thesis by simp
  qed
  have p: "palet ! i ! 0 = ?r" "palet ! i ! 1 = ?g" "palet ! i ! 2 = ?b"
    using assms(8) [symmetric] by simp_all
  have err: "fsdColor_error ?r i 0 = 0" "fsdColor_error ?g i 1 = 0" "fsdColor_error ?b i 2 = 0"
    using p by (simp_all add: fsdColor_error_def)
  have same: "fsdColor_visit (m_width img * 3) 3 (m_height img) row (k * 3) s = Some s"
    by (rule fsdColor_visit_exact [OF sh assms(3,4,5,6,8)])
  have search: "idColor r g b < 7
             \<and> (\<forall>j < 7. auxDistance r g b (idColor r g b) \<le> auxDistance r g b j)
             \<and> (\<forall>j < idColor r g b. auxDistance r g b (idColor r g b) < auxDistance r g b j)" for r g b
    using idColor_props by blast
  from idc zero far err same out search show ?thesis by (simp only: idc) blast
qed

theorem fsdColor_exact_palette_match_witness:
  "consistent green_3x2 \<and> m_pixelSize green_3x2 = 3
   \<and> 0 + 1 < m_height green_3x2 \<and> (0::nat) < 1 \<and> 1 + 1 < m_width green_3x2 \<and> (1::nat) < 7
   \<and> fsdColor_reached (m_width green_3x2 * 3) 3 (m_height green_3x2) 0 (1 * 3) (m_bitmapData green_3x2)
       = Some [[0x38, 0x48, 0x8d, 0x54, 0x7a, 0x49, 0x54, 0x7a, 0x49],
               [0x54, 0x7a, 0x49, 0x54, 0x7a, 0x49, 0x54, 0x7a, 0x49]]
   \<and> [0x54, 0x7a, 0x49] = palet ! 1
   \<and> idColor 0x54 0x7a 0x49 = 1
   \<and> auxDistance 0x54 0x7a 0x49 1 = 0
   \<and> fsdColor_error 0x54 1 0 = 0 \<and> fsdColor_error 0x7a 1 1 = 0 \<and> fsdColor_error 0x49 1 2 = 0
   \<and> fsdColor_visit 9 3 2 0 3 [[0x38, 0x48, 0x8d, 0x54, 0x7a, 0x49, 0x54, 0x7a, 0x49],
                               [0x54, 0x7a, 0x49, 0x54, 0x7a, 0x49, 0x54, 0x7a, 0x49]]
       = Some [[0x38, 0x48, 0x8d, 0x54, 0x7a, 0x49, 0x54, 0x7a, 0x49],
               [0x54, 0x7a, 0x49, 0x54, 0x7a, 0x49, 0x54, 0x7a, 0x49]]
   \<and> (\<exists>out. fsdColor green_3x2 = Returned out \<and> getPixel out 1 0 = Value [0x54, 0x7a, 0x49])"
proof -
  let ?s = "[[0x38, 0x48, 0x8d, 0x54, 0x7a, 0x49, 0x54, 0x7a, 0x49],
             [0x54, 0x7a, 0x49, 0x54, 0x7a, 0x49, 0x54, 0x7a, 0x49]] :: bitmap"
  have c: "consistent green_3x2" "m_pixelSize green_3x2 = 3"
    "0 + 1 < m_height green_3x2" "(0::nat) < 1" "1 + 1 < m_width green_3x2" "(1::nat) < 7"
    by (simp_all add: green_3x2_def consistent_def shape_def)
  have d: "m_width green_3x2 = 3" "m_height green_3x2 = 2" by (simp_all add: green_3x2_def)
  have p: "[?s ! 0 ! (1 * 3), ?s ! 0 ! (1 * 3 + 1), ?s ! 0 ! (1 * 3 + 2)] = palet ! 1"
    by (simp add: palet_def)
  have p': "[0x54, 0x7a, 0x49] = palet ! 1" by (simp add: palet_def)
  from fsdColor_exact_palette_match [OF c green_reached p] c green_reached p'
  show ?thesis by (simp add: d p' [symmetric])
qed

text \<open>
  C10. For every consistent 3-channel image of positive width and height, \<open>fsdColor\<close>
  returns an image with 3 channels, the same width and the same height, in which every
  pixel is one of the 7 palette entries.
\<close>

theorem fsdColor_palette_only:
  assumes "consistent img" "m_pixelSize img = 3" "0 < m_height img" "0 < m_width img"
  shows "\<exists>out. fsdColor img = Returned out
           \<and> m_pixelSize out = 3 \<and> m_width out = m_width img \<and> m_height out = m_height img
           \<and> consistent out
           \<and> (\<forall>y < m_height img. \<forall>x < m_width img. \<exists>i < 7. getPixel out x y = Value (palet ! i))"
proof -
  from fsdColor_final [OF assms(1,2,3,4)] obtain out where
    out: "fsdColor img = Returned out" "consistent out" "m_pixelSize out = 3"
      "m_width out = m_width img" "m_height out = m_height img"
    by blast
  have "\<exists>i < 7. getPixel out x y = Value (palet ! i)" if "y < m_height img" "x < m_width img" for x y
  proof -
    from fsdColor_final [OF assms(1,2) that] out(1) obtain s where
      px: "getPixel out x y =
             Value (if x = 0 \<or> x = m_width img - 1 \<or> y = m_height img - 1 then palet ! 0
                    else palet ! idColor (s ! y ! (x * 3)) (s ! y ! (x * 3 + 1)) (s ! y ! (x * 3 + 2)))"
      by auto
    show ?thesis
    proof (cases "x = 0 \<or> x = m_width img - 1 \<or> y = m_height img - 1")
      case True
      with px have "getPixel out x y = Value (palet ! 0)" by simp
      then show ?thesis by (intro exI [of _ 0]) simp
    next
      case False
      with px have "getPixel out x y =
          Value (palet ! idColor (s ! y ! (x * 3)) (s ! y ! (x * 3 + 1)) (s ! y ! (x * 3 + 2)))"
        by simp
      with idColor_props(1) show ?thesis by blast
    qed
  qed
  with out show ?thesis by blast
qed

theorem fsdColor_palette_only_witness:
  "consistent stripe_4x3 \<and> m_pixelSize stripe_4x3 = 3 \<and> 0 < m_height stripe_4x3
   \<and> 0 < m_width stripe_4x3
   \<and> (\<exists>out. fsdColor stripe_4x3 = Returned out
           \<and> m_pixelSize out = 3 \<and> m_width out = 4 \<and> m_height out = 3
           \<and> consistent out
           \<and> (\<forall>y < 3. \<forall>x < 4. \<exists>i < 7. getPixel out x y = Value (palet ! i)))
   \<and> fsdColor stripe_4x3 =
       Returned \<lparr>m_bitmapData =
                  [[0x38, 0x48, 0x8d, 0x24, 0x29, 0x33, 0xd3, 0xdd, 0xe4, 0x38, 0x48, 0x8d],
                   [0x38, 0x48, 0x8d, 0xd3, 0xdd, 0xe4, 0xd3, 0xdd, 0xe4, 0x38, 0x48, 0x8d],
                   [0x38, 0x48, 0x8d, 0x38, 0x48, 0x8d, 0x38, 0x48, 0x8d, 0x38, 0x48, 0x8d]],
                m_width = 4, m_height = 3, m_pixelSize = 3, m_colourSpace = 2\<rparr>"
proof -
  have c: "consistent stripe_4x3" "m_pixelSize stripe_4x3 = 3" "0 < m_height stripe_4x3"
    "0 < m_width stripe_4x3"
    by (simp_all add: stripe_4x3_def consistent_def shape_def)
  have d: "m_width stripe_4x3 = 4" "m_height stripe_4x3 = 3" by (simp_all add: stripe_4x3_def)
  have e: "fsdColor stripe_4x3 =
       Returned \<lparr>m_bitmapData =
                  [[0x38, 0x48, 0x8d, 0x24, 0x29, 0x33, 0xd3, 0xdd, 0xe4, 0x38, 0x48, 0x8d],
                   [0x38, 0x48, 0x8d, 0xd3, 0xdd, 0xe4, 0xd3, 0xdd, 0xe4, 0x38, 0x48, 0x8d],
                   [0x38, 0x48, 0x8d, 0x38, 0x48, 0x8d, 0x38, 0x48, 0x8d, 0x38, 0x48, 0x8d]],
                m_width = 4, m_height = 3, m_pixelSize = 3, m_colourSpace = 2\<rparr>"
    by code_simp
  from fsdColor_palette_only [OF c] c e show ?thesis unfolding d by blast
qed

section \<open>The downsampler: claims\<close>

text \<open>
  C8. \<open>shrink newWidth\<close> returns with the image unchanged whenever
  \<open>newWidth \<ge> m_width\<close>; with \<open>newWidth = 0\<close> (and a positive width) it throws
  \<^verbatim>\<open>out_of_range\<close>, and at the throw the object (rows, width, height, channel count) is
  exactly as it was.
\<close>

theorem shrink_noop_or_throw:
  "(m_width img \<le> newWidth \<longrightarrow> shrink newWidth img = Returned img)
   \<and> (newWidth = 0 \<and> 0 < m_width img \<longrightarrow>
        shrink newWidth img = Thrown (out_of_range ''New width cannot be zero'') img)"
  by (simp add: shrink_def)

theorem shrink_noop_or_throw_witness:
  "m_width gray_4x4 \<le> 4 \<and> shrink 4 gray_4x4 = Returned gray_4x4
   \<and> (0::nat) = 0 \<and> 0 < m_width gray_4x4
   \<and> shrink 0 gray_4x4 = Thrown (out_of_range ''New width cannot be zero'') gray_4x4"
  using shrink_noop_or_throw [of gray_4x4 4] shrink_noop_or_throw [of gray_4x4 0]
  by (simp add: gray_4x4_def)

text \<open>
  C3 says that \<open>shrink\<close> emits one output row per distinct destination row index and
  leaves the height at the truncation of \<open>scale * height\<close>. On the 1-channel image of
  4 by 4 pixels shrunk to width 2 the scale is \<open>1/2\<close> (every single-precision operation
  is exact there), the destination indices of the rows are 0, 0, 1, 1 and \<^verbatim>\<open>newHeight\<close>
  is 2; a row is emitted only when the index exceeds \<^verbatim>\<open>oldRow\<close>, which starts at 0,
  and nothing is emitted after the loop, so one row comes out and the height is 1.
  Shrunk to width 1, all four rows have the destination index 0 and \<^verbatim>\<open>newHeight\<close>
  is 1; no row is emitted, and reading the width off row 0 of the empty result is
  undefined behaviour.
\<close>

theorem shrink_emits_one_row_less:
  "map (scaled (shrink_scaleFactor 2 gray_4x4)) [0, 1, 2, 3] = [0, 0, 1, 1]
   \<and> shrink_newHeight 2 gray_4x4 = 2
   \<and> shrink 2 gray_4x4 =
       Returned \<lparr>m_bitmapData = [[0, 255]], m_width = 2, m_height = 1, m_pixelSize = 1,
                m_colourSpace = 1\<rparr>
   \<and> map (scaled (shrink_scaleFactor 1 gray_4x4)) [0, 1, 2, 3] = [0, 0, 0, 0]
   \<and> shrink_newHeight 1 gray_4x4 = 1
   \<and> shrink 1 gray_4x4 = Undefined_behaviour"
  by code_simp

text \<open>
  C9 says that shrinking an image of one colour gives an image of that colour. On the
  3-channel image of 2 by 3 pixels, all \<open>(10, 20, 60)\<close>, shrunk to width 1, the
  destination index \<open>idx\<close> is computed from the sample index, not the pixel index:
  the six samples of a row go to the indices 0, 0, 1, 1, 2, 2, so red and green are
  averaged into sample 0, blue and red into sample 1, green and blue into sample 2. The
  one pixel that comes out is \<open>(15, 35, 40)\<close>.
\<close>

theorem shrink_mixes_channels:
  "getPixel uniform_2x3 0 0 = Value [10, 20, 60] \<and> getPixel uniform_2x3 1 0 = Value [10, 20, 60]
   \<and> getPixel uniform_2x3 0 1 = Value [10, 20, 60] \<and> getPixel uniform_2x3 1 1 = Value [10, 20, 60]
   \<and> getPixel uniform_2x3 0 2 = Value [10, 20, 60] \<and> getPixel uniform_2x3 1 2 = Value [10, 20, 60]
   \<and> map (scaled (shrink_scaleFactor 1 uniform_2x3)) [0, 1, 2, 3, 4, 5] = [0, 0, 1, 1, 2, 2]
   \<and> shrink 1 uniform_2x3 =
       Returned \<lparr>m_bitmapData = [[15, 35, 40]], m_width = 1, m_height = 1, m_pixelSize = 3,
                m_colourSpace = 2\<rparr>
   \<and> getPixel \<lparr>m_bitmapData = [[15, 35, 40]], m_width = 1, m_height = 1, m_pixelSize = 3,
                m_colourSpace = 2\<rparr> 0 0 = Value [15, 35, 40]"
  by code_simp

section \<open>\<^verbatim>\<open>getAverage\<close>: claims\<close>

text \<open>
  C7 says that \<open>getAverage\<close> succeeds whenever the box size exceeds neither the width
  nor the height. A box of size 0 passes both tests; no pixel is summed, and the totals
  are divided by \<open>boxSize * boxSize = 0\<close>: an integer division by zero, which is
  undefined behaviour, on every image and for every anchor. Boxes of a positive size
  that fit are averaged, and a box larger than the image is refused.
\<close>

theorem getAverage_zero_box:
  "getAverage img x y 0 = Undefined
   \<and> getAverage gray_4x4 0 0 5 = Throw (out_of_range ''Box size is greater than image width'')
   \<and> getAverage gray_4x4 3 3 2 = Value [255]
   \<and> getAverage gray_4x4 0 0 4 = Value [127]"
proof -
  have empty: "[a..<size_t (a + 0)] = []" for a
    by (simp add: size_t_def)
  have "getAverage img x y 0 = Undefined"
    by (simp add: getAverage_def Let_def empty size_t_def)
  moreover have "getAverage gray_4x4 0 0 5 = Throw (out_of_range ''Box size is greater than image width'')"
    "getAverage gray_4x4 3 3 2 = Value [255]"
    "getAverage gray_4x4 0 0 4 = Value [127]"
    by code_simp+
  ultimately show ?thesis by simp
qed

end
